theory Spec2Isabelle
  imports Complex_Main "HOL-Library.Word" "HOL-Library.Sublist"
begin

section \<open>Data model\<close>

text \<open>
  The application keeps its session in React state cells (\<^verbatim>\<open>useState\<close>, App.tsx lines 53-66)
  and changes them only through the handlers of \<^verbatim>\<open>App\<close>. The enumerations and the request
  type are imported from \<^verbatim>\<open>./types\<close>, the collaborator calls from
  \<^verbatim>\<open>./services/geminiService\<close>; neither file is among the sources.
\<close>

text \<open>
  Modelled from the spec: the four enumerations of \<^verbatim>\<open>types.ts\<close>. App.tsx names
  \<^verbatim>\<open>AppState.IDLE/LOADING/SUCCESS/ERROR\<close>, \<^verbatim>\<open>GenerationMode.STORY_TO_VIDEO/EXTEND_VIDEO\<close>,
  \<^verbatim>\<open>AspectRatio.PORTRAIT/LANDSCAPE\<close> and \<^verbatim>\<open>Resolution.P720\<close>; the spec adds the plain
  text-to-video mode, and \<open>P1080\<close> stands for every resolution that is not the extend tier.
\<close>

datatype AppState = IDLE | LOADING | SUCCESS | ERROR

datatype GenerationMode = TEXT_TO_VIDEO | STORY_TO_VIDEO | EXTEND_VIDEO

datatype AspectRatio = LANDSCAPE | PORTRAIT

datatype Resolution = P720 | P1080

type_synonym byte = "8 word"

text \<open>Browser objects the handlers pass around: a \<^verbatim>\<open>Blob\<close>, a \<^verbatim>\<open>File\<close> built from blobs,
  and the service's opaque video handle. The field \<^verbatim>\<open>file\<close> of \<^verbatim>\<open>VideoFile\<close> is written \<open>theFile\<close>.\<close>

record Blob =
  blobBytes :: "byte list"
  blobType :: string

record File =
  fileBits :: "Blob list"
  fileName :: string
  fileType :: string

datatype Video = VideoHandle string

datatype ImageFile = ImageFile string

record VideoFile =
  theFile :: File
  base64 :: string

text \<open>
  Modelled from the spec: the fields of \<^verbatim>\<open>GenerateVideoParams\<close> (declared in \<^verbatim>\<open>types.ts\<close>).
  They are the fields \<^verbatim>\<open>handleGenerate\<close> reads and \<^verbatim>\<open>handleExtend\<close> writes, with the model
  selection its comment mentions.
\<close>

record GenerateVideoParams =
  prompt :: string
  model :: string
  aspectRatio :: AspectRatio
  resolution :: Resolution
  mode :: GenerationMode
  startFrame :: "ImageFile option"
  endFrame :: "ImageFile option"
  referenceImages :: "ImageFile list"
  styleImage :: "ImageFile option"
  inputVideo :: "VideoFile option"
  inputVideoObject :: "Video option"
  isLooping :: bool

section \<open>JavaScript strings\<close>

text \<open>
  Strings are lists of code units. \<^verbatim>\<open>String.prototype.includes\<close> is the search for a
  contiguous occurrence; \<^verbatim>\<open>toLowerCase\<close> is modelled on the letters A to Z, the only
  code units whose lower case can take part in a match of the ASCII pattern the source
  looks for.
\<close>

fun str_includes :: "string \<Rightarrow> string \<Rightarrow> bool" where
  "str_includes [] pat = (pat = [])"
| "str_includes (c # cs) pat = (prefix pat (c # cs) \<or> str_includes cs pat)"

definition toLowerCaseChar :: "char \<Rightarrow> char" where
  "toLowerCaseChar c =
     (case map_of (zip ''ABCDEFGHIJKLMNOPQRSTUVWXYZ'' ''abcdefghijklmnopqrstuvwxyz'') c of
        Some l \<Rightarrow> l
      | None \<Rightarrow> c)"

definition toLowerCase :: "string \<Rightarrow> string" where
  "toLowerCase s = map toLowerCaseChar s"

section \<open>Failures and their classification\<close>

text \<open>
  What a rejected promise or a \<^verbatim>\<open>throw\<close> carries: an \<^verbatim>\<open>Error\<close> object with its message,
  or any other value. Lines 163-164 read the message, lines 166-183 classify it.
\<close>

datatype thrown = ErrorObj string | NonError

definition errorMessageOf :: "thrown \<Rightarrow> string" where
  "errorMessageOf e = (case e of ErrorObj m \<Rightarrow> m | NonError \<Rightarrow> ''An unknown error occurred.'')"

definition modelNotFoundMessage :: string where
  "modelNotFoundMessage =
     ''Model not found. This can be caused by an invalid API key or permission issues. Please check your API key.''"

definition invalidKeyMessage :: string where
  "invalidKeyMessage =
     ''Your API key is invalid or lacks permissions. Please select a valid, billing-enabled API key.''"

text \<open>The pair is (\<^verbatim>\<open>userFriendlyMessage\<close>, \<^verbatim>\<open>shouldOpenDialog\<close>) as the catch block leaves them.\<close>

definition classifyError :: "string \<Rightarrow> string \<times> bool" where
  "classifyError errorMessage =
     (if str_includes errorMessage ''Requested entity was not found.''
      then (modelNotFoundMessage, True)
      else if str_includes errorMessage ''API_KEY_INVALID''
           \<or> str_includes errorMessage ''API key not valid''
           \<or> str_includes (toLowerCase errorMessage) ''permission denied''
      then (invalidKeyMessage, True)
      else (''Video generation failed: '' @ errorMessage, False))"

section \<open>The browser\<close>

text \<open>
  What the source takes from the JavaScript engine and the browser is a parameter of the
  model. The story script is typed as the destructuring of line 119 expects it: three
  strings. \<open>jsonParse\<close> stands for \<^verbatim>\<open>JSON.parse\<close> followed by the destructuring and answers
  \<open>Inl\<close> for a prompt that makes line 118, 119 or 123 throw (malformed JSON, \<^verbatim>\<open>null\<close>, an
  \<^verbatim>\<open>image_prompt\<close> that is missing or has no \<^verbatim>\<open>includes\<close>). A script whose \<^verbatim>\<open>image_prompt\<close> is
  a JSON array is not a story script and is not modelled. \<open>atob\<close> is the browser's base64
  decoder, which throws on a malformed payload. \<open>int16ArrayMessage\<close> is the engine's text
  for the \<^verbatim>\<open>RangeError\<close> of an \<^verbatim>\<open>Int16Array\<close> over a buffer of the given odd byte length, and
  \<open>newAudioContext\<close> is what the constructor of line 141 gives.
\<close>

record StoryScript =
  dialogue :: string
  voice_tone :: string
  image_prompt :: string

text \<open>
  An audio context, as far as \<^verbatim>\<open>decodeAudioData\<close> uses it. \<^verbatim>\<open>createBuffer\<close> throws a
  \<^verbatim>\<open>NotSupportedError\<close> when an argument is zero or outside its nominal range; the ranges
  are the engine's own, so \<open>nominalRange\<close> says for a channel count, a length in frames
  and a sample rate whether the engine takes them. The two message fields are the
  engine's texts for that error and for the \<^verbatim>\<open>IndexSizeError\<close> of \<^verbatim>\<open>getChannelData\<close> on a
  channel the buffer does not have.
\<close>

record AudioContext =
  nominalRange :: "nat \<Rightarrow> nat \<Rightarrow> nat \<Rightarrow> bool"
  createBufferMessage :: "nat \<Rightarrow> real \<Rightarrow> nat \<Rightarrow> string"
  getChannelDataMessage :: "nat \<Rightarrow> string"

record Platform =
  jsonParse :: "string \<Rightarrow> thrown + StoryScript"
  atob :: "string \<Rightarrow> thrown + string"
  int16ArrayMessage :: "nat \<Rightarrow> string"
  newAudioContext :: "thrown + AudioContext"

section \<open>The audio decoder\<close>

text \<open>
  \<^verbatim>\<open>decode\<close> and \<^verbatim>\<open>decodeAudioData\<close> (App.tsx lines 23-50) rely on this behaviour of typed
  arrays and audio buffers:
  \<^item> a \<^verbatim>\<open>Uint8Array\<close> is a window (\<^verbatim>\<open>byteOffset\<close>, \<^verbatim>\<open>length\<close>) on an \<^verbatim>\<open>ArrayBuffer\<close>, its
    \<^verbatim>\<open>buffer\<close>, written \<open>arrayBuffer\<close> here; \<^verbatim>\<open>new Uint8Array(len)\<close> makes a fresh buffer of
    \<open>len\<close> bytes and a window on all of it;
  \<^item> \<^verbatim>\<open>new Int16Array(buffer)\<close> views all the bytes of the buffer as 16-bit two's-complement
    integers in platform (little-endian) byte order and throws a \<^verbatim>\<open>RangeError\<close> when the
    byte length is not a multiple of 2;
  \<^item> \<^verbatim>\<open>createBuffer(channels, length, rate)\<close> converts channel count and length to
    unsigned 32-bit integers, by truncation and modulo \<open>2 ^ 32\<close>, and throws as described
    for \<open>AudioContext\<close>;
  \<^item> reading a typed array past its end gives \<^verbatim>\<open>undefined\<close>, which divides to \<^verbatim>\<open>NaN\<close>, and
    writing a \<^verbatim>\<open>Float32Array\<close> past its end does nothing.
  A 16-bit integer divided by 32768 is exactly representable in binary32, so the stored
  sample is the real quotient. The quotient of line 40 is a double; a typed array has
  fewer than \<open>2 ^ 53\<close> elements, and there the double truncates and compares with integers
  as the real quotient does. With zero channels the quotient is infinite or \<^verbatim>\<open>NaN\<close>, which
  \<^verbatim>\<open>createBuffer\<close> converts to length 0, the value the model's quotient gives as well.
  Sample rates are whole numbers of hertz.
\<close>

type_synonym int16 = "16 word"

datatype jsnum = Num real | NaN

record Uint8Array =
  arrayBuffer :: "byte list"
  byteOffset :: nat
  byteLength :: nat

text \<open>The bytes the array itself holds.\<close>

definition uint8Elements :: "Uint8Array \<Rightarrow> byte list" where
  "uint8Elements a = take (byteLength a) (drop (byteOffset a) (arrayBuffer a))"

text \<open>\<^verbatim>\<open>decode\<close> (lines 23-31): the code units of \<^verbatim>\<open>atob\<close>'s binary string, stored as the
  bytes of a fresh array.\<close>

definition decode :: "Platform \<Rightarrow> string \<Rightarrow> thrown + Uint8Array" where
  "decode pf b64 =
     (case atob pf b64 of
        Inl e \<Rightarrow> Inl e
      | Inr binaryString \<Rightarrow>
          Inr \<lparr>arrayBuffer = map (\<lambda>c. of_nat (of_char c)) binaryString,
               byteOffset = 0,
               byteLength = length binaryString\<rparr>)"

fun int16_elems :: "byte list \<Rightarrow> int16 list" where
  "int16_elems (lo # hi # rest) = word_cat hi lo # int16_elems rest"
| "int16_elems _ = []"

definition newInt16Array :: "Platform \<Rightarrow> byte list \<Rightarrow> thrown + int16 list" where
  "newInt16Array pf bytes =
     (if even (length bytes) then Inr (int16_elems bytes)
      else Inl (ErrorObj (int16ArrayMessage pf (length bytes))))"

text \<open>\<^verbatim>\<open>dataInt16[k] / 32768.0\<close>\<close>

definition sampleAt :: "int16 list \<Rightarrow> nat \<Rightarrow> jsnum" where
  "sampleAt dataInt16 k =
     (if k < length dataInt16 then Num (real_of_int (sint (dataInt16 ! k)) / 32768) else NaN)"

text \<open>\<^verbatim>\<open>channelData[i] = v\<close>\<close>

definition f32_store :: "jsnum list \<Rightarrow> nat \<Rightarrow> jsnum \<Rightarrow> jsnum list" where
  "f32_store channelData i v =
     (if i < length channelData then channelData[i := v] else channelData)"

record AudioBuffer =
  sampleRate :: nat
  channelBuffers :: "jsnum list list"

definition createBuffer :: "AudioContext \<Rightarrow> nat \<Rightarrow> real \<Rightarrow> nat \<Rightarrow> thrown + AudioBuffer" where
  "createBuffer ctx numChannels frameCount rate =
     (let channels = numChannels mod 2 ^ 32;
          len = nat \<lfloor>frameCount\<rfloor> mod 2 ^ 32
      in if channels = 0 \<or> len = 0 \<or> rate = 0 \<or> \<not> nominalRange ctx channels len rate
         then Inl (ErrorObj (createBufferMessage ctx numChannels frameCount rate))
         else Inr \<lparr>sampleRate = rate,
                   channelBuffers = replicate channels (replicate len (Num 0))\<rparr>)"

text \<open>The inner loop of lines 45-47, from frame \<open>i\<close> on. \<open>frameCount\<close> is the quotient of
  line 40, which is not an integer when a partial frame trails.\<close>

function fillChannel ::
  "int16 list \<Rightarrow> nat \<Rightarrow> nat \<Rightarrow> real \<Rightarrow> nat \<Rightarrow> jsnum list \<Rightarrow> jsnum list" where
  "fillChannel dataInt16 numChannels channel frameCount i channelData =
     (if real i < frameCount
      then fillChannel dataInt16 numChannels channel frameCount (i + 1)
             (f32_store channelData i (sampleAt dataInt16 (i * numChannels + channel)))
      else channelData)"
  by pat_completeness auto
termination
proof (relation "measure (\<lambda>(d, n, c, fc, i, cd). nat \<lceil>fc\<rceil> - i)")
  show "wf (measure (\<lambda>(d, n, c, fc, i, cd). nat \<lceil>fc :: real\<rceil> - i))" by simp
next
  fix dataInt16 :: "int16 list" and numChannels channel i :: nat and frameCount :: real
    and channelData :: "jsnum list"
  assume "real i < frameCount"
  then have "i < nat \<lceil>frameCount\<rceil>" by linarith
  then show "((dataInt16, numChannels, channel, frameCount, i + 1,
        f32_store channelData i (sampleAt dataInt16 (i * numChannels + channel))),
       (dataInt16, numChannels, channel, frameCount, i, channelData))
      \<in> measure (\<lambda>(d, n, c, fc, i, cd). nat \<lceil>fc\<rceil> - i)"
    by simp
qed

declare fillChannel.simps [simp del]

text \<open>The outer loop of lines 43-48 over the channels still to do: \<^verbatim>\<open>getChannelData\<close> throws
  for a channel the buffer does not have, and otherwise the channel is filled in place.\<close>

fun fillChannels ::
  "AudioContext \<Rightarrow> int16 list \<Rightarrow> nat \<Rightarrow> real \<Rightarrow> nat list \<Rightarrow> jsnum list list
     \<Rightarrow> thrown + jsnum list list" where
  "fillChannels ctx dataInt16 numChannels frameCount [] chans = Inr chans"
| "fillChannels ctx dataInt16 numChannels frameCount (channel # rest) chans =
     (if channel < length chans
      then fillChannels ctx dataInt16 numChannels frameCount rest
             (chans[channel :=
                fillChannel dataInt16 numChannels channel frameCount 0 (chans ! channel)])
      else Inl (ErrorObj (getChannelDataMessage ctx channel)))"

text \<open>\<^verbatim>\<open>decodeAudioData\<close> (lines 33-50). \<open>pf\<close> is there for the \<^verbatim>\<open>Int16Array\<close> constructor; line 39
  views \<^verbatim>\<open>data.buffer\<close>, the whole buffer behind the array.\<close>

definition decodeAudioData ::
  "Platform \<Rightarrow> Uint8Array \<Rightarrow> AudioContext \<Rightarrow> nat \<Rightarrow> nat \<Rightarrow> thrown + AudioBuffer" where
  "decodeAudioData pf data ctx rate numChannels =
     (case newInt16Array pf (arrayBuffer data) of
        Inl e \<Rightarrow> Inl e
      | Inr dataInt16 \<Rightarrow>
          (let frameCount = real (length dataInt16) / real numChannels in
           case createBuffer ctx numChannels frameCount rate of
             Inl e \<Rightarrow> Inl e
           | Inr buffer \<Rightarrow>
               (case fillChannels ctx dataInt16 numChannels frameCount [0..<numChannels]
                       (channelBuffers buffer) of
                  Inl e \<Rightarrow> Inl e
                | Inr chans \<Rightarrow> Inr (buffer\<lparr>channelBuffers := chans\<rparr>))))"

text \<open>The \<open>k\<close>-th sample of a payload read as signed 16-bit little-endian PCM, in the
  spec's words: low byte first, two's complement.\<close>

definition pcmSample :: "byte list \<Rightarrow> nat \<Rightarrow> int" where
  "pcmSample bytes k =
     (let u = int (unat (bytes ! (2 * k))) + 256 * int (unat (bytes ! (2 * k + 1)))
      in if u < 32768 then u else u - 65536)"

section \<open>The session and its handlers\<close>

text \<open>The state cells of \<^verbatim>\<open>App\<close> (lines 53-66), with their initial values.\<close>

record Session =
  appState :: AppState
  videoUrl :: "string option"
  audioBuffer :: "AudioBuffer option"
  errorMessage :: "string option"
  lastConfig :: "GenerateVideoParams option"
  lastVideoObject :: "Video option"
  lastVideoBlob :: "Blob option"
  showApiKeyDialog :: bool
  initialFormValues :: "GenerateVideoParams option"

definition initialSession :: Session where
  "initialSession =
     \<lparr>appState = IDLE, videoUrl = None, audioBuffer = None, errorMessage = None,
      lastConfig = None, lastVideoObject = None, lastVideoBlob = None,
      showApiKeyDialog = False, initialFormValues = None\<rparr>"

text \<open>JavaScript truthiness of a \<^verbatim>\<open>string | null\<close>: null and the empty string are falsy.\<close>

definition truthy :: "string option \<Rightarrow> bool" where
  "truthy v = (case v of None \<Rightarrow> False | Some s \<Rightarrow> s \<noteq> [])"

subsection \<open>What the environment answers\<close>

text \<open>
  The outcome of the credential check of lines 94-108: \<^verbatim>\<open>window.aistudio\<close> is absent, or
  \<^verbatim>\<open>hasSelectedApiKey()\<close> resolves to a boolean, or it rejects.
\<close>

datatype key_check = NoAistudio | HasSelectedApiKey bool | CheckThrows thrown

definition gatePasses :: "key_check \<Rightarrow> bool" where
  "gatePasses kc =
     (case kc of NoAistudio \<Rightarrow> True | HasSelectedApiKey b \<Rightarrow> b | CheckThrows e \<Rightarrow> False)"

text \<open>What \<^verbatim>\<open>generateVideo\<close> resolves to, and how the collaborator calls of one attempt
  settle: each resolves or rejects, and when both reject \<^verbatim>\<open>Promise.all\<close> rejects with
  the rejection that came first.\<close>

record VideoResult =
  objectUrl :: string
  blob :: Blob
  video :: Video

record Response =
  videoOutcome :: "thrown + VideoResult"
  speechOutcome :: "thrown + string"
  speechSettlesFirst :: bool

text \<open>The collaborator calls and decoding attempts a handler makes, in order.\<close>

datatype call =
    GenerateVideo GenerateVideoParams
  | GenerateSpeech string string
  | DecodeAudio string

text \<open>Which calls of an attempt are awaited.\<close>

datatype Pending = AwaitVideo | AwaitVideoAndSpeech

subsection \<open>handleGenerate\<close>

text \<open>Lines 121-132: the aspect ratio of the video call of a story.\<close>

definition inferAspectRatio :: "string \<Rightarrow> AspectRatio \<Rightarrow> AspectRatio" where
  "inferAspectRatio imagePrompt requested =
     (if str_includes imagePrompt ''9:16'' \<or> str_includes imagePrompt ''vertical''
      then PORTRAIT
      else if str_includes imagePrompt ''16:9'' \<or> str_includes imagePrompt ''landscape''
      then LANDSCAPE
      else requested)"

text \<open>\<^verbatim>\<open>Promise.all\<close> of two promises (line 136).\<close>

definition promiseAll :: "bool \<Rightarrow> thrown + 'a \<Rightarrow> thrown + 'b \<Rightarrow> thrown + 'a \<times> 'b" where
  "promiseAll secondFirst p q =
     (case p of
        Inr a \<Rightarrow> (case q of Inr b \<Rightarrow> Inr (a, b) | Inl e \<Rightarrow> Inl e)
      | Inl e1 \<Rightarrow> (case q of Inr b \<Rightarrow> Inl e1 | Inl e2 \<Rightarrow> Inl (if secondFirst then e2 else e1)))"

text \<open>The catch block, lines 161-191, applied to the session as it is when the failure
  arrives.\<close>

definition catchBlock :: "thrown \<Rightarrow> Session \<Rightarrow> Session" where
  "catchBlock error s =
     (let (userFriendlyMessage, shouldOpenDialog) = classifyError (errorMessageOf error);
          s' = s\<lparr>errorMessage := Some userFriendlyMessage, appState := ERROR\<rparr>
      in if shouldOpenDialog then s'\<lparr>showApiKeyDialog := True\<rparr> else s')"

text \<open>Lines 110-114, the state changes that open an attempt.\<close>

definition beginAttempt :: "GenerateVideoParams \<Rightarrow> Session \<Rightarrow> Session" where
  "beginAttempt params s =
     s\<lparr>appState := LOADING, errorMessage := None, lastConfig := Some params,
       initialFormValues := None\<rparr>"

text \<open>
  \<^verbatim>\<open>handleGenerate\<close> up to its \<^verbatim>\<open>await\<close> of the collaborator calls (lines 93-139): the
  credential gate, the opening state changes, and for a story the parsing, the aspect
  ratio and the two calls. The result is the session, the calls now awaited (none when
  the handler has already returned) and the calls issued.
\<close>

definition startAttempt ::
  "Platform \<Rightarrow> key_check \<Rightarrow> GenerateVideoParams \<Rightarrow> Session
     \<Rightarrow> Session \<times> Pending option \<times> call list" where
  "startAttempt pf kc params s =
     (if \<not> gatePasses kc then (s\<lparr>showApiKeyDialog := True\<rparr>, None, [])
      else
        let s1 = beginAttempt params s in
        if mode params = STORY_TO_VIDEO then
          (case jsonParse pf (prompt params) of
             Inl error \<Rightarrow> (catchBlock error s1, None, [])
           | Inr script \<Rightarrow>
               let videoParams =
                     params\<lparr>prompt := image_prompt script,
                            aspectRatio := inferAspectRatio (image_prompt script) (aspectRatio params)\<rparr>
               in (s1, Some AwaitVideoAndSpeech,
                   [GenerateVideo videoParams,
                    GenerateSpeech (dialogue script) (voice_tone script)]))
        else (s1, Some AwaitVideo, [GenerateVideo params]))"

text \<open>The rest of \<^verbatim>\<open>handleGenerate\<close> (lines 136-191), run when the awaited calls have
  settled: the join, the decoding of the speech, the result cells, and the catch block.\<close>

definition settleAttempt ::
  "Platform \<Rightarrow> Response \<Rightarrow> Pending \<Rightarrow> Session \<Rightarrow> Session \<times> call list" where
  "settleAttempt pf r p s =
     (case p of
        AwaitVideoAndSpeech \<Rightarrow>
          (case promiseAll (speechSettlesFirst r) (videoOutcome r) (speechOutcome r) of
             Inl error \<Rightarrow> (catchBlock error s, [])
           | Inr (videoResult, audioBase64) \<Rightarrow>
               (case newAudioContext pf of
                  Inl error \<Rightarrow> (catchBlock error s, [])
                | Inr outputAudioContext \<Rightarrow>
                    (case decode pf audioBase64 of
                       Inl error \<Rightarrow> (catchBlock error s, [DecodeAudio audioBase64])
                     | Inr bytes \<Rightarrow>
                         (case decodeAudioData pf bytes outputAudioContext 24000 1 of
                            Inl error \<Rightarrow> (catchBlock error s, [DecodeAudio audioBase64])
                          | Inr decodedBuffer \<Rightarrow>
                              (s\<lparr>audioBuffer := Some decodedBuffer,
                                 videoUrl := Some (objectUrl videoResult),
                                 lastVideoBlob := Some (blob videoResult),
                                 lastVideoObject := Some (video videoResult),
                                 appState := SUCCESS\<rparr>,
                               [DecodeAudio audioBase64])))))
      | AwaitVideo \<Rightarrow>
          (case videoOutcome r of
             Inl error \<Rightarrow> (catchBlock error s, [])
           | Inr videoResult \<Rightarrow>
               (s\<lparr>videoUrl := Some (objectUrl videoResult),
                  lastVideoBlob := Some (blob videoResult),
                  lastVideoObject := Some (video videoResult),
                  appState := SUCCESS\<rparr>,
                [])))"

text \<open>\<^verbatim>\<open>handleGenerate\<close> from the call to the return of its promise.\<close>

definition handleGenerate ::
  "Platform \<Rightarrow> key_check \<Rightarrow> Response \<Rightarrow> GenerateVideoParams \<Rightarrow> Session
     \<Rightarrow> Session \<times> call list" where
  "handleGenerate pf kc r params s =
     (case startAttempt pf kc params s of
        (s1, None, calls) \<Rightarrow> (s1, calls)
      | (s1, Some p, calls) \<Rightarrow>
          (let (s2, later) = settleAttempt pf r p s1 in (s2, calls @ later)))"

subsection \<open>The other handlers\<close>

text \<open>Lines 194-198. \<open>lastCfg\<close> is the \<^verbatim>\<open>lastConfig\<close> of the render whose \<^verbatim>\<open>handleRetry\<close> runs.
  Like \<open>startAttempt\<close>, the handler is followed up to the point where the attempt it may
  start awaits its calls.\<close>

definition handleRetry ::
  "Platform \<Rightarrow> key_check \<Rightarrow> GenerateVideoParams option \<Rightarrow> Session
     \<Rightarrow> Session \<times> Pending option \<times> call list" where
  "handleRetry pf kc lastCfg s =
     (case lastCfg of
        Some cfg \<Rightarrow> startAttempt pf kc cfg s
      | None \<Rightarrow> (s, None, []))"

text \<open>Lines 210-219.\<close>

definition handleNewVideo :: "Session \<Rightarrow> Session" where
  "handleNewVideo s =
     s\<lparr>appState := IDLE, videoUrl := None, audioBuffer := None, errorMessage := None,
       lastConfig := None, lastVideoObject := None, lastVideoBlob := None,
       initialFormValues := None\<rparr>"

text \<open>Lines 221-230.\<close>

definition handleTryAgainFromError :: "Session \<Rightarrow> Session" where
  "handleTryAgainFromError s =
     (case lastConfig s of
        Some cfg \<Rightarrow> s\<lparr>initialFormValues := Some cfg, appState := IDLE, errorMessage := None\<rparr>
      | None \<Rightarrow> handleNewVideo s)"

text \<open>Lines 232-266. Building a \<^verbatim>\<open>File\<close> from a blob does not throw, so the catch block of
  lines 259-264 is never entered.\<close>

definition handleExtend :: "Session \<Rightarrow> Session" where
  "handleExtend s =
     (case (lastConfig s, lastVideoBlob s, lastVideoObject s) of
        (Some cfg, Some lastBlob, Some lastObject) \<Rightarrow>
          (let newFile = \<lparr>fileBits = [lastBlob], fileName = ''last_video.mp4'',
                           fileType = blobType lastBlob\<rparr>;
               videoFile = \<lparr>theFile = newFile, base64 = ''''\<rparr>
           in s\<lparr>initialFormValues :=
                    Some (cfg\<lparr>mode := EXTEND_VIDEO,
                               prompt := '''',
                               inputVideo := Some videoFile,
                               inputVideoObject := Some lastObject,
                               resolution := P720,
                               startFrame := None,
                               endFrame := None,
                               referenceImages := [],
                               styleImage := None,
                               isLooping := False\<rparr>),
                appState := IDLE,
                videoUrl := None,
                audioBuffer := None,
                errorMessage := None\<rparr>)
      | _ \<Rightarrow> s)"

text \<open>
  Lines 200-208. The outcome of line 203: \<^verbatim>\<open>window.aistudio\<close> is absent, or
  \<^verbatim>\<open>openSelectKey()\<close> resolves, or it rejects; nothing catches the rejection, so the handler
  ends there. Selecting a key does not touch the session. \<open>rendered\<close> is the session of
  the render in which Continue was clicked: line 205 reads its \<^verbatim>\<open>appState\<close> and
  \<^verbatim>\<open>lastConfig\<close>, and \<^verbatim>\<open>handleRetry\<close> is that render's. \<open>s\<close> is the session the state changes
  apply to.
\<close>

datatype key_selection = NoAistudioToSelect | KeySelected | SelectionThrows thrown

definition handleApiKeyDialogContinue ::
  "Platform \<Rightarrow> key_selection \<Rightarrow> key_check \<Rightarrow> Session \<Rightarrow> Session
     \<Rightarrow> Session \<times> Pending option \<times> call list" where
  "handleApiKeyDialogContinue pf sel kc rendered s =
     (let s' = s\<lparr>showApiKeyDialog := False\<rparr> in
      case sel of
        SelectionThrows e \<Rightarrow> (s', None, [])
      | _ \<Rightarrow>
          if appState rendered = ERROR \<and> lastConfig rendered \<noteq> None
          then handleRetry pf kc (lastConfig rendered) s'
          else (s', None, []))"

section \<open>The session as a state machine\<close>

text \<open>
  What the user and the collaborators can do to a session. The view (lines 280-333 and
  VideoResult.tsx lines 88-109) decides which controls exist: the prompt form in
  \<open>IDLE\<close>; Retry, Extend (when \<^verbatim>\<open>canExtend\<close>) and New Video in \<open>SUCCESS\<close> with a video URL;
  Try Again in the error box, shown in \<open>ERROR\<close> with a message and in \<open>SUCCESS\<close> without a
  URL; Continue in the credential dialog while it is shown. A handler runs without
  interruption up to its await of the collaborator calls, and \<open>Settled\<close> is the moment the
  awaited calls of the attempt in flight have settled. The awaits of the credential check
  (line 96) and of the key selection (line 203) are thus taken to finish before the next
  event, so a click handler works on the session of the render it was clicked in. Where
  \<^verbatim>\<open>window.aistudio\<close> is absent these awaits do not exist and the machine is the program;
  where it is present, a handler that resumes after a later event, with the cells it read
  before, is outside this machine.
\<close>

datatype event =
    Submit GenerateVideoParams key_check
  | RetryClick key_check
  | ExtendClick
  | NewVideoClick
  | TryAgainClick
  | DialogContinue key_selection key_check
  | Settled Response

text \<open>Line 318.\<close>

definition canExtend :: "Session \<Rightarrow> bool" where
  "canExtend s = (case lastConfig s of Some cfg \<Rightarrow> resolution cfg = P720 | None \<Rightarrow> False)"

definition offered :: "Session \<Rightarrow> event \<Rightarrow> bool" where
  "offered s ev =
     (case ev of
        Submit params kc \<Rightarrow> appState s = IDLE
      | RetryClick kc \<Rightarrow> appState s = SUCCESS \<and> truthy (videoUrl s)
      | ExtendClick \<Rightarrow> appState s = SUCCESS \<and> truthy (videoUrl s) \<and> canExtend s
      | NewVideoClick \<Rightarrow> appState s = SUCCESS \<and> truthy (videoUrl s)
      | TryAgainClick \<Rightarrow>
          if appState s = SUCCESS then \<not> truthy (videoUrl s)
          else appState s = ERROR \<and> truthy (errorMessage s)
      | DialogContinue sel kc \<Rightarrow> showApiKeyDialog s
      | Settled r \<Rightarrow> True)"

record Machine =
  session :: Session
  inFlight :: "Pending option"
  issued :: "call list"

definition initialMachine :: Machine where
  "initialMachine = \<lparr>session = initialSession, inFlight = None, issued = []\<rparr>"

definition launch :: "Machine \<Rightarrow> Session \<times> Pending option \<times> call list \<Rightarrow> Machine" where
  "launch m started =
     (case started of
        (s, p, calls) \<Rightarrow>
          \<lparr>session = s,
           inFlight = (case p of None \<Rightarrow> inFlight m | Some q \<Rightarrow> Some q),
           issued = issued m @ calls\<rparr>)"

definition step :: "Platform \<Rightarrow> Machine \<Rightarrow> event \<Rightarrow> Machine option" where
  "step pf m ev =
     (if \<not> offered (session m) ev then None
      else
        case ev of
          Submit params kc \<Rightarrow> Some (launch m (startAttempt pf kc params (session m)))
        | RetryClick kc \<Rightarrow>
            Some (launch m (handleRetry pf kc (lastConfig (session m)) (session m)))
        | ExtendClick \<Rightarrow> Some (m\<lparr>session := handleExtend (session m)\<rparr>)
        | NewVideoClick \<Rightarrow> Some (m\<lparr>session := handleNewVideo (session m)\<rparr>)
        | TryAgainClick \<Rightarrow> Some (m\<lparr>session := handleTryAgainFromError (session m)\<rparr>)
        | DialogContinue sel kc \<Rightarrow>
            Some (launch m (handleApiKeyDialogContinue pf sel kc (session m) (session m)))
        | Settled r \<Rightarrow>
            (case inFlight m of
               None \<Rightarrow> None
             | Some p \<Rightarrow>
                 (case settleAttempt pf r p (session m) of
                    (s, calls) \<Rightarrow>
                      Some \<lparr>session = s, inFlight = None, issued = issued m @ calls\<rparr>)))"

fun run :: "Platform \<Rightarrow> Machine \<Rightarrow> event list \<Rightarrow> Machine option" where
  "run pf m [] = Some m"
| "run pf m (ev # evs) = (case step pf m ev of None \<Rightarrow> None | Some m' \<Rightarrow> run pf m' evs)"

inductive reachable :: "Platform \<Rightarrow> Machine \<Rightarrow> bool" for pf :: Platform where
  reachable_initial: "reachable pf initialMachine"
| reachable_step: "reachable pf m \<Longrightarrow> step pf m ev = Some m' \<Longrightarrow> reachable pf m'"

text \<open>The session after a sequence of events from the initial machine, when every event
  of the sequence was possible where it came.\<close>

definition sessionAfter :: "Platform \<Rightarrow> event list \<Rightarrow> Session option" where
  "sessionAfter pf evs = map_option session (run pf initialMachine evs)"

text \<open>Two conditions on the cells that every reachable session meets: outside \<open>IDLE\<close> a
  last request is stored and the error box of \<open>ERROR\<close> has a message to show; in \<open>SUCCESS\<close>
  the result is stored in full.\<close>

definition errorCellsSet :: "Session \<Rightarrow> bool" where
  "errorCellsSet s =
     ((appState s = IDLE \<or> lastConfig s \<noteq> None)
      \<and> (appState s = ERROR \<longrightarrow> truthy (errorMessage s)))"

definition resultCellsSet :: "Session \<Rightarrow> bool" where
  "resultCellsSet s =
     (appState s = SUCCESS \<longrightarrow>
        videoUrl s \<noteq> None \<and> lastVideoBlob s \<noteq> None \<and> lastVideoObject s \<noteq> None)"

section \<open>Example inputs\<close>

text \<open>A story request, a plain request, and collaborators that answer them; the speech
  payload \<^verbatim>\<open>AAD/fw==\<close> is the base64 text of the bytes 00 00 FF 7F.\<close>

definition storyPrompt :: string where
  \<open>storyPrompt = ''{"dialogue": "Hi", "voice_tone": "warm", "image_prompt": "a cat, 9:16"}''\<close>

text \<open>An audio engine with the nominal ranges of Chromium: up to 32 channels and sample
  rates from 3000 to 768000 Hz. Its message texts are placeholders.\<close>

definition demoContext :: AudioContext where
  "demoContext =
     \<lparr>nominalRange = (\<lambda>channels len rate. channels \<le> 32 \<and> 3000 \<le> rate \<and> rate \<le> 768000),
      createBufferMessage = (\<lambda>channels frameCount rate. ''createBuffer: not supported''),
      getChannelDataMessage = (\<lambda>channel. ''getChannelData: index out of range'')\<rparr>"

definition demoPlatform :: Platform where
  "demoPlatform =
     \<lparr>jsonParse = (\<lambda>p. if p = storyPrompt
                        then Inr \<lparr>dialogue = ''Hi'', voice_tone = ''warm'',
                                  image_prompt = ''a cat, 9:16''\<rparr>
                        else Inl (ErrorObj ''Unexpected token'')),
      atob = (\<lambda>b. if b = ''AAD/fw==''
                   then Inr [CHR 0x00, CHR 0x00, CHR 0xFF, CHR 0x7F]
                   else Inl (ErrorObj ''The string to be decoded is not correctly encoded.'')),
      int16ArrayMessage = (\<lambda>n. ''byte length of Int16Array should be a multiple of 2''),
      newAudioContext = Inr demoContext\<rparr>"

definition textRequest :: GenerateVideoParams where
  "textRequest =
     \<lparr>prompt = ''a dog on a beach'', model = ''veo'', aspectRatio = LANDSCAPE,
      resolution = P720, mode = TEXT_TO_VIDEO, startFrame = None, endFrame = None,
      referenceImages = [], styleImage = None, inputVideo = None, inputVideoObject = None,
      isLooping = False\<rparr>"

definition storyRequest :: GenerateVideoParams where
  "storyRequest = textRequest\<lparr>prompt := storyPrompt, mode := STORY_TO_VIDEO\<rparr>"

definition demoVideo :: VideoResult where
  "demoVideo =
     \<lparr>objectUrl = ''blob:video-1'',
      blob = \<lparr>blobBytes = [0x00, 0x01], blobType = ''video/mp4''\<rparr>,
      video = VideoHandle ''files/video-1''\<rparr>"

definition okResponse :: Response where
  "okResponse =
     \<lparr>videoOutcome = Inr demoVideo, speechOutcome = Inr ''AAD/fw=='',
      speechSettlesFirst = False\<rparr>"

definition failedResponse :: Response where
  "failedResponse =
     \<lparr>videoOutcome = Inr demoVideo, speechOutcome = Inl (ErrorObj ''quota exceeded''),
      speechSettlesFirst = True\<rparr>"

definition demoAudio :: AudioBuffer where
  "demoAudio = \<lparr>sampleRate = 24000, channelBuffers = [[Num 0, Num (32767 / 32768)]]\<rparr>"

text \<open>The machine after the plain request has succeeded from the initial session, and
  after a click on Retry there.\<close>

definition textSuccess :: Machine where
  "textSuccess =
     \<lparr>session =
        \<lparr>appState = SUCCESS, videoUrl = Some ''blob:video-1'', audioBuffer = None,
         errorMessage = None, lastConfig = Some textRequest,
         lastVideoObject = Some (VideoHandle ''files/video-1''),
         lastVideoBlob = Some \<lparr>blobBytes = [0x00, 0x01], blobType = ''video/mp4''\<rparr>,
         showApiKeyDialog = False, initialFormValues = None\<rparr>,
      inFlight = None,
      issued = [GenerateVideo textRequest]\<rparr>"


text \<open>The machine after the story request has failed from the initial session.\<close>

definition storyFailed :: Machine where
  "storyFailed =
     \<lparr>session =
        \<lparr>appState = ERROR, videoUrl = None, audioBuffer = None,
         errorMessage = Some ''Video generation failed: quota exceeded'',
         lastConfig = Some storyRequest, lastVideoObject = None, lastVideoBlob = None,
         showApiKeyDialog = False, initialFormValues = None\<rparr>,
      inFlight = None,
      issued =
        [GenerateVideo (storyRequest\<lparr>prompt := ''a cat, 9:16'', aspectRatio := PORTRAIT\<rparr>),
         GenerateSpeech ''Hi'' ''warm'']\<rparr>"

text \<open>Payloads for the decoder: six bytes, an odd number of bytes, none, and the bytes
  of the speech payload above.\<close>

definition demoPayload :: Uint8Array where
  "demoPayload =
     \<lparr>arrayBuffer = [0x00, 0x80, 0xFF, 0x7F, 0x01, 0x00], byteOffset = 0, byteLength = 6\<rparr>"

definition oddPayload :: Uint8Array where
  "oddPayload = \<lparr>arrayBuffer = [0x00, 0x80, 0xFF], byteOffset = 0, byteLength = 3\<rparr>"

definition emptyPayload :: Uint8Array where
  "emptyPayload = \<lparr>arrayBuffer = [], byteOffset = 0, byteLength = 0\<rparr>"

definition speechPayload :: Uint8Array where
  "speechPayload =
     \<lparr>arrayBuffer = [0x00, 0x00, 0xFF, 0x7F], byteOffset = 0, byteLength = 4\<rparr>"




section \<open>Properties of the string operations\<close>

lemma str_includes_iff: "str_includes s pat \<longleftrightarrow> (\<exists>a b. s = a @ pat @ b)"
proof (induction s)
  case Nil
  then show ?case by auto
next
  case (Cons c cs)
  show ?case
  proof
    assume "str_includes (c # cs) pat"
    then consider "prefix pat (c # cs)" | "str_includes cs pat" by auto
    then show "\<exists>a b. c # cs = a @ pat @ b"
    proof cases
      case 1
      then obtain b where "c # cs = pat @ b" by (auto simp: prefix_def)
      then have "c # cs = [] @ pat @ b" by simp
      then show ?thesis by blast
    next
      case 2
      then obtain a b where "cs = a @ pat @ b" using Cons.IH by blast
      then have "c # cs = (c # a) @ pat @ b" by simp
      then show ?thesis by blast
    qed
  next
    assume "\<exists>a b. c # cs = a @ pat @ b"
    then obtain a b where ab: "c # cs = a @ pat @ b" by blast
    show "str_includes (c # cs) pat"
    proof (cases a)
      case Nil
      with ab have "prefix pat (c # cs)" by (simp add: prefix_def)
      then show ?thesis by simp
    next
      case (Cons x a')
      with ab have "cs = a' @ pat @ b" by simp
      then have "str_includes cs pat" using Cons.IH by blast
      then show ?thesis by simp
    qed
  qed
qed

lemma map_eq_append3:
  assumes "map f s = a' @ p @ b'"
  shows "\<exists>a t b. s = a @ t @ b \<and> map f t = p"
proof -
  from assms obtain a r where s: "s = a @ r" and r: "p @ b' = map f r"
    by (auto simp only: map_eq_append_conv)
  from r have "map f r = p @ b'" by (rule sym)
  then obtain t b where "r = t @ b" and "p = map f t"
    by (auto simp only: map_eq_append_conv)
  with s have "s = a @ t @ b \<and> map f t = p" by simp
  then show ?thesis by blast
qed

lemma str_includes_lower_iff:
  "str_includes (toLowerCase s) pat \<longleftrightarrow> (\<exists>a t b. s = a @ t @ b \<and> toLowerCase t = pat)"
proof
  assume "str_includes (toLowerCase s) pat"
  then obtain a' b' where "map toLowerCaseChar s = a' @ pat @ b'"
    unfolding str_includes_iff toLowerCase_def by blast
  then show "\<exists>a t b. s = a @ t @ b \<and> toLowerCase t = pat"
    unfolding toLowerCase_def by (rule map_eq_append3)
next
  assume "\<exists>a t b. s = a @ t @ b \<and> toLowerCase t = pat"
  then obtain a t b where "s = a @ t @ b" and "toLowerCase t = pat" by blast
  then have "toLowerCase s = toLowerCase a @ pat @ toLowerCase b"
    by (simp add: toLowerCase_def)
  then show "str_includes (toLowerCase s) pat" unfolding str_includes_iff by blast
qed

section \<open>The error classifier\<close>

text \<open>
  Claim C5. The classifier applies three rules in order and the first match wins. A raw
  message that contains the service's "entity not found" sentence gives the model-not-found
  text and asks for a new credential. Otherwise a message that contains one of the two
  invalid-key markers, or contains "permission denied" in any mix of upper and lower case,
  gives the invalid-key text and asks for a new credential. Every other message is
  returned verbatim behind the prefix "Video generation failed: " and no credential is
  asked for.
\<close>

theorem classifyError_rules_in_order:
  "classifyError msg =
     (if (\<exists>a b. msg = a @ ''Requested entity was not found.'' @ b)
      then (modelNotFoundMessage, True)
      else if (\<exists>a b. msg = a @ ''API_KEY_INVALID'' @ b)
           \<or> (\<exists>a b. msg = a @ ''API key not valid'' @ b)
           \<or> (\<exists>a t b. msg = a @ t @ b \<and> toLowerCase t = ''permission denied'')
      then (invalidKeyMessage, True)
      else (''Video generation failed: '' @ msg, False))"
  unfolding classifyError_def str_includes_lower_iff
  unfolding str_includes_iff
  by (rule refl)

theorem classifyError_rules_in_order_witness:
  "classifyError ''403 Permission Denied'' = (invalidKeyMessage, True)
   \<and> classifyError ''quota exceeded'' = (''Video generation failed: quota exceeded'', False)"
proof -
  have lower: "toLowerCase ''Permission Denied'' = ''permission denied''"
    by (simp add: toLowerCase_def toLowerCaseChar_def)
  have "''403 Permission Denied'' = ''403 '' @ ''Permission Denied'' @ ''''"
    by simp
  with lower have denied:
    "\<exists>a t b. ''403 Permission Denied'' = a @ t @ b \<and> toLowerCase t = ''permission denied''"
    by blast
  have no_entity:
    "\<not> (\<exists>a b. ''403 Permission Denied'' = a @ ''Requested entity was not found.'' @ b)"
    unfolding str_includes_iff [symmetric] by simp
  have first: "classifyError ''403 Permission Denied'' = (invalidKeyMessage, True)"
    using classifyError_rules_in_order [of "''403 Permission Denied''"] denied no_entity
    by simp
  have none:
    "\<not> (\<exists>a b. ''quota exceeded'' = a @ ''Requested entity was not found.'' @ b)"
    "\<not> (\<exists>a b. ''quota exceeded'' = a @ ''API_KEY_INVALID'' @ b)"
    "\<not> (\<exists>a b. ''quota exceeded'' = a @ ''API key not valid'' @ b)"
    "\<not> (\<exists>a t b. ''quota exceeded'' = a @ t @ b \<and> toLowerCase t = ''permission denied'')"
    unfolding str_includes_iff [symmetric] str_includes_lower_iff [symmetric]
    by (simp_all add: toLowerCase_def toLowerCaseChar_def)
  have second:
    "classifyError ''quota exceeded'' = (''Video generation failed: quota exceeded'', False)"
    using classifyError_rules_in_order [of "''quota exceeded''"] none by simp
  from first second show ?thesis by blast
qed

section \<open>The audio decoder: properties\<close>

lemma length_int16_elems: "length (int16_elems bs) = length bs div 2"
  by (induction bs rule: int16_elems.induct) simp_all

lemma int16_elems_nth:
  "k < length bs div 2 \<Longrightarrow> int16_elems bs ! k = word_cat (bs ! (2 * k + 1)) (bs ! (2 * k))"
proof (induction bs arbitrary: k rule: int16_elems.induct)
  case (1 lo hi rest)
  show ?case
  proof (cases k)
    case 0
    then show ?thesis by simp
  next
    case (Suc j)
    with "1.prems" have "j < length rest div 2" by simp
    then have "int16_elems rest ! j = word_cat (rest ! (2 * j + 1)) (rest ! (2 * j))"
      by (rule "1.IH")
    with Suc show ?thesis by simp
  qed
qed simp_all

lemma uint_word_cat_bytes:
  "uint (word_cat (hi :: byte) (lo :: byte) :: int16) = uint lo + 256 * uint hi"
proof -
  have lo: "0 \<le> uint lo" "uint lo < 256" using uint_lt2p [of lo] by simp_all
  have hi: "0 \<le> uint hi" "uint hi < 256" using uint_lt2p [of hi] by simp_all
  have c: "concat_bit 8 (uint lo) (uint hi) = uint lo + 256 * uint hi"
    using lo by (simp add: concat_bit_eq take_bit_int_eq_self push_bit_eq_mult)
  have r: "0 \<le> uint lo + 256 * uint hi" "uint lo + 256 * uint hi < 65536"
    using lo hi by auto
  have "uint (word_cat hi lo :: int16)
          = take_bit LENGTH(16) (concat_bit LENGTH(8) (uint lo) (uint hi))"
    by (simp only: word_cat_eq' uint_word_of_int_eq)
  also have "\<dots> = take_bit 16 (uint lo + 256 * uint hi)"
    using c by simp
  also have "\<dots> = uint lo + 256 * uint hi"
    using r by (simp add: take_bit_int_eq_self)
  finally show ?thesis .
qed

lemma sint_int16:
  "sint (w :: int16) = (if uint w < 32768 then uint w else uint w - 65536)"
proof -
  have r: "0 \<le> uint w" "uint w < 65536" using uint_lt2p [of w] by simp_all
  have "sint w = take_bit 16 (uint w + 32768) - 32768"
    by (simp add: sint_uint signed_take_bit_eq_take_bit_shift)
  also have "\<dots> = (uint w + 32768) mod 65536 - 32768"
    by (simp add: take_bit_eq_mod)
  also have "\<dots> = (if uint w < 32768 then uint w else uint w - 65536)"
  proof (cases "uint w < 32768")
    case True
    with r have "(uint w + 32768) mod 65536 = uint w + 32768" by simp
    with True show ?thesis by simp
  next
    case False
    with r have "(uint w + 32768) mod 65536 = uint w + 32768 - 65536"
      by (simp add: mod_pos_geq)
    with False show ?thesis by simp
  qed
  finally show ?thesis .
qed

lemma sint_int16_elems:
  assumes "k < length data div 2"
  shows "sint (int16_elems data ! k) = pcmSample data k"
proof -
  have "uint (int16_elems data ! k)
          = uint (data ! (2 * k)) + 256 * uint (data ! (2 * k + 1))"
    using assms by (simp only: int16_elems_nth uint_word_cat_bytes)
  then show ?thesis
    by (simp add: sint_int16 pcmSample_def Let_def)
qed

lemma sint_int16_range: "- 32768 \<le> sint (w :: int16) \<and> sint w \<le> 32767"
  using sint_ge [of w] sint_lt [of w] by simp

lemma fillChannel_past_end:
  "length channelData \<le> i \<Longrightarrow>
     fillChannel dataInt16 numChannels channel frameCount i channelData = channelData"
proof (induction dataInt16 numChannels channel frameCount i channelData rule: fillChannel.induct)
  case (1 dataInt16 numChannels channel frameCount i channelData)
  show ?case
  proof (cases "real i < frameCount")
    case True
    let ?cd = "f32_store channelData i (sampleAt dataInt16 (i * numChannels + channel))"
    from "1.prems" have same: "?cd = channelData" by (simp add: f32_store_def)
    with "1.prems" have "length ?cd \<le> i + 1" by simp
    with True have "fillChannel dataInt16 numChannels channel frameCount (i + 1) ?cd = ?cd"
      by (rule "1.IH")
    with True same show ?thesis by (simp add: fillChannel.simps [of _ _ _ _ i])
  next
    case False
    then show ?thesis by (simp add: fillChannel.simps [of _ _ _ _ i])
  qed
qed

lemma fillChannel_fills:
  assumes "\<And>j. j < length channelData \<Longrightarrow> real j < frameCount"
    and "i \<le> length channelData"
  shows "fillChannel dataInt16 numChannels channel frameCount i channelData
           = take i channelData
             @ map (\<lambda>j. sampleAt dataInt16 (j * numChannels + channel)) [i..<length channelData]"
  using assms
proof (induction dataInt16 numChannels channel frameCount i channelData rule: fillChannel.induct)
  case (1 dataInt16 numChannels channel frameCount i channelData)
  let ?v = "sampleAt dataInt16 (i * numChannels + channel)"
  let ?cd = "f32_store channelData i ?v"
  show ?case
  proof (cases "i < length channelData")
    case True
    then have cond: "real i < frameCount" by (rule "1.prems"(1))
    from True have cd: "?cd = channelData[i := ?v]" by (simp add: f32_store_def)
    have len: "length ?cd = length channelData" by (simp add: f32_store_def)
    have "fillChannel dataInt16 numChannels channel frameCount (i + 1) ?cd
            = take (i + 1) ?cd
              @ map (\<lambda>j. sampleAt dataInt16 (j * numChannels + channel)) [i + 1..<length ?cd]"
      using cond
    proof (rule "1.IH")
      show "\<And>j. j < length ?cd \<Longrightarrow> real j < frameCount"
        using "1.prems"(1) len by simp
      show "i + 1 \<le> length ?cd" using True len by simp
    qed
    also have "take (i + 1) ?cd = take i channelData @ [?v]"
      using True by (simp add: cd take_Suc_conv_app_nth)
    finally have "fillChannel dataInt16 numChannels channel frameCount (i + 1) ?cd
            = take i channelData
              @ map (\<lambda>j. sampleAt dataInt16 (j * numChannels + channel)) [i..<length channelData]"
      using True by (simp add: len upt_conv_Cons)
    with cond show ?thesis by (simp add: fillChannel.simps [of _ _ _ _ i])
  next
    case False
    with "1.prems"(2) have "i = length channelData" by simp
    then show ?thesis by (simp add: fillChannel_past_end)
  qed
qed

lemma createBuffer_ok:
  assumes "0 < numChannels" and "numChannels < 2 ^ 32" and "0 < rate"
    and "numChannels \<le> n" and "n div numChannels < 2 ^ 32"
    and "nominalRange ctx numChannels (n div numChannels) rate"
  shows "createBuffer ctx numChannels (real n / real numChannels) rate
           = Inr \<lparr>sampleRate = rate,
                    channelBuffers = replicate numChannels (replicate (n div numChannels) (Num 0))\<rparr>"
proof -
  have fl: "nat \<lfloor>real n / real numChannels\<rfloor> = n div numChannels"
    by (simp add: floor_divide_of_nat_eq)
  from assms(1,4) have pos: "0 < n div numChannels" by (simp add: div_greater_zero_iff)
  from assms(2) have c: "numChannels mod 2 ^ 32 = numChannels" by simp
  from assms(5) have l: "(n div numChannels) mod 2 ^ 32 = n div numChannels" by simp
  show ?thesis
    unfolding createBuffer_def Let_def fl c l using assms(1,3,6) pos by simp
qed

lemma createBuffer_no_frame:
  assumes "n < numChannels"
  shows "createBuffer ctx numChannels (real n / real numChannels) rate
           = Inl (ErrorObj (createBufferMessage ctx numChannels (real n / real numChannels) rate))"
proof -
  have "nat \<lfloor>real n / real numChannels\<rfloor> = n div numChannels"
    by (simp add: floor_divide_of_nat_eq)
  also from assms have "\<dots> = 0" by simp
  finally have "nat \<lfloor>real n / real numChannels\<rfloor> mod 2 ^ 32 = 0" by simp
  then show ?thesis unfolding createBuffer_def Let_def by simp
qed

lemma fillChannels_all:
  assumes "length chans = n" and "k \<le> n"
  shows "fillChannels ctx dataInt16 numChannels frameCount [k..<n] chans
           = Inr (take k chans
                  @ map (\<lambda>c. fillChannel dataInt16 numChannels c frameCount 0 (chans ! c))
                        [k..<n])"
  using assms
proof (induction "n - k" arbitrary: k chans)
  case 0
  then have "k = n" by simp
  with "0.prems" show ?case by simp
next
  case (Suc d)
  let ?v = "fillChannel dataInt16 numChannels k frameCount 0 (chans ! k)"
  let ?chans = "chans[k := ?v]"
  from Suc.hyps(2) have k: "k < n" by simp
  then have upt: "[k..<n] = k # [Suc k..<n]" by (simp add: upt_conv_Cons)
  from Suc.hyps(2) have d: "d = n - Suc k" by simp
  have len: "length ?chans = n" using Suc.prems(1) by simp
  from k have le: "Suc k \<le> n" by simp
  have ih: "fillChannels ctx dataInt16 numChannels frameCount [Suc k..<n] ?chans
              = Inr (take (Suc k) ?chans
                     @ map (\<lambda>c. fillChannel dataInt16 numChannels c frameCount 0 (?chans ! c))
                           [Suc k..<n])"
    using d len le by (rule Suc.hyps(1))
  have taken: "take (Suc k) ?chans = take k chans @ [?v]"
    using k Suc.prems(1) by (simp add: take_Suc_conv_app_nth)
  have later: "map (\<lambda>c. fillChannel dataInt16 numChannels c frameCount 0 (?chans ! c))
                   [Suc k..<n]
               = map (\<lambda>c. fillChannel dataInt16 numChannels c frameCount 0 (chans ! c))
                   [Suc k..<n]"
    by (rule map_cong) simp_all
  from k Suc.prems(1) have "k < length chans" by simp
  then show ?case unfolding upt by (simp add: ih taken later)
qed

lemma interleaved_index_in_range:
  assumes "channel < numChannels" and "i < n div numChannels"
  shows "i * numChannels + channel < (n :: nat)"
proof -
  have "i * numChannels + channel < Suc i * numChannels" using assms(1) by simp
  also have "\<dots> \<le> (n div numChannels) * numChannels"
    using assms(2) by (simp add: Suc_leI mult_le_mono1 del: mult_Suc)
  also have "\<dots> \<le> n" by simp
  finally show ?thesis .
qed

lemma frame_below_frameCount:
  assumes "0 < numChannels" and "j < n div numChannels"
  shows "real j < real n / real numChannels"
proof -
  from assms have "j * numChannels + 0 < n" by (rule interleaved_index_in_range)
  then have "j * numChannels < n" by simp
  then have "real (j * numChannels) < real n" by (simp only: of_nat_less_iff)
  then have "real j * real numChannels < real n" by (simp only: of_nat_mult)
  then show ?thesis using assms(1) by (simp add: pos_less_divide_eq)
qed

lemma decode_fresh_array:
  assumes "decode pf b64 = Inr data"
  shows "byteOffset data = 0 \<and> byteLength data = length (arrayBuffer data)
         \<and> uint8Elements data = arrayBuffer data"
  using assms by (auto simp: decode_def uint8Elements_def split: sum.splits)

lemma decodeAudioData_odd:
  assumes "odd (length (arrayBuffer data))"
  shows "decodeAudioData pf data ctx rate numChannels
           = Inl (ErrorObj (int16ArrayMessage pf (length (arrayBuffer data))))"
  using assms by (simp add: decodeAudioData_def newInt16Array_def)

lemma decodeAudioData_no_frame:
  assumes "even (length (arrayBuffer data))" and "length (arrayBuffer data) < 2 * numChannels"
  shows "decodeAudioData pf data ctx rate numChannels
           = Inl (ErrorObj (createBufferMessage ctx numChannels
                    (real (length (arrayBuffer data) div 2) / real numChannels) rate))"
proof -
  from assms have "length (arrayBuffer data) div 2 < numChannels" by auto
  then have "createBuffer ctx numChannels
               (real (length (arrayBuffer data) div 2) / real numChannels) rate
             = Inl (ErrorObj (createBufferMessage ctx numChannels
                      (real (length (arrayBuffer data) div 2) / real numChannels) rate))"
    by (rule createBuffer_no_frame)
  with assms(1) show ?thesis
    by (simp add: decodeAudioData_def newInt16Array_def length_int16_elems Let_def)
qed

lemma decodeAudioData_outside_range:
  assumes "even (length (arrayBuffer data))" and "numChannels < 2 ^ 32"
    and "length (arrayBuffer data) div 2 div numChannels < 2 ^ 32"
    and "\<not> nominalRange ctx numChannels (length (arrayBuffer data) div 2 div numChannels) rate"
  shows "decodeAudioData pf data ctx rate numChannels
           = Inl (ErrorObj (createBufferMessage ctx numChannels
                    (real (length (arrayBuffer data) div 2) / real numChannels) rate))"
proof -
  let ?n = "length (arrayBuffer data) div 2"
  have fl: "nat \<lfloor>real ?n / real numChannels\<rfloor> = ?n div numChannels"
    by (simp add: floor_divide_of_nat_eq)
  from assms(2) have c: "numChannels mod 2 ^ 32 = numChannels" by simp
  from assms(3) have l: "(?n div numChannels) mod 2 ^ 32 = ?n div numChannels" by simp
  have "createBuffer ctx numChannels (real ?n / real numChannels) rate
          = Inl (ErrorObj (createBufferMessage ctx numChannels (real ?n / real numChannels) rate))"
    unfolding createBuffer_def Let_def fl c l using assms(4) by simp
  with assms(1) show ?thesis
    by (simp add: decodeAudioData_def newInt16Array_def length_int16_elems Let_def)
qed

lemma decodeAudioData_buffer:
  assumes "even (length bytes)" and "2 * numChannels \<le> length bytes"
    and "0 < numChannels" and "numChannels < 2 ^ 32"
    and "length bytes div 2 div numChannels < 2 ^ 32"
    and "0 < rate"
    and "nominalRange ctx numChannels (length bytes div 2 div numChannels) rate"
    and "arrayBuffer data = bytes"
  shows "\<exists>buffer. decodeAudioData pf data ctx rate numChannels = Inr buffer
           \<and> length (channelBuffers buffer) = numChannels
           \<and> (\<forall>channel < numChannels.
                 length (channelBuffers buffer ! channel) = length bytes div 2 div numChannels
                 \<and> (\<forall>i < length bytes div 2 div numChannels.
                       \<exists>x. channelBuffers buffer ! channel ! i = Num x
                           \<and> x = real_of_int (pcmSample bytes (i * numChannels + channel)) / 32768
                           \<and> - 1 \<le> x \<and> x \<le> 1))"
proof -
  let ?d = "int16_elems bytes"
  let ?n = "length bytes div 2"
  let ?len = "?n div numChannels"
  let ?fc = "real ?n / real numChannels"
  let ?fill = "\<lambda>channel. fillChannel ?d numChannels channel ?fc 0 (replicate ?len (Num 0))"
  let ?zero = "replicate numChannels (replicate ?len (Num 0 :: jsnum))"
  let ?buffer = "\<lparr>sampleRate = rate, channelBuffers = map ?fill [0..<numChannels]\<rparr>"
  from assms(2) have n: "numChannels \<le> ?n" by simp
  have cb: "createBuffer ctx numChannels ?fc rate
              = Inr \<lparr>sampleRate = rate, channelBuffers = ?zero\<rparr>"
    using assms(3,4,6) n assms(5,7) by (rule createBuffer_ok)
  have "fillChannels ctx ?d numChannels ?fc [0..<numChannels] ?zero
          = Inr (take 0 ?zero
                 @ map (\<lambda>c. fillChannel ?d numChannels c ?fc 0 (?zero ! c)) [0..<numChannels])"
    by (rule fillChannels_all) simp_all
  also have "map (\<lambda>c. fillChannel ?d numChannels c ?fc 0 (?zero ! c)) [0..<numChannels]
             = map ?fill [0..<numChannels]"
    by (rule map_cong) simp_all
  finally have filled:
    "fillChannels ctx ?d numChannels ?fc [0..<numChannels] ?zero
       = Inr (map ?fill [0..<numChannels])"
    by simp
  have dec: "decodeAudioData pf data ctx rate numChannels = Inr ?buffer"
    using assms(1)
    by (simp add: decodeAudioData_def assms(8) newInt16Array_def length_int16_elems Let_def
        cb filled)
  have fill: "?fill channel = map (\<lambda>j. sampleAt ?d (j * numChannels + channel)) [0..<?len]"
    for channel
  proof -
    have "?fill channel
            = take 0 (replicate ?len (Num 0))
              @ map (\<lambda>j. sampleAt ?d (j * numChannels + channel))
                    [0..<length (replicate ?len (Num 0 :: jsnum))]"
    proof (rule fillChannel_fills)
      fix j assume "j < length (replicate ?len (Num 0 :: jsnum))"
      then have "j < ?len" by simp
      with assms(3) show "real j < ?fc" by (rule frame_below_frameCount)
    qed simp
    then show ?thesis by simp
  qed
  have per: "length (channelBuffers ?buffer ! channel) = ?len
               \<and> (\<forall>i < ?len.
                     \<exists>x. channelBuffers ?buffer ! channel ! i = Num x
                         \<and> x = real_of_int (pcmSample bytes (i * numChannels + channel)) / 32768
                         \<and> - 1 \<le> x \<and> x \<le> 1)"
    if c: "channel < numChannels" for channel
  proof -
    from c have sel: "channelBuffers ?buffer ! channel = ?fill channel" by simp
    have "\<exists>x. ?fill channel ! i = Num x
             \<and> x = real_of_int (pcmSample bytes (i * numChannels + channel)) / 32768
             \<and> - 1 \<le> x \<and> x \<le> 1"
      if i: "i < ?len" for i
    proof -
      let ?k = "i * numChannels + channel"
      from c i have k: "?k < ?n" by (rule interleaved_index_in_range)
      then have s: "sint (?d ! ?k) = pcmSample bytes ?k" by (rule sint_int16_elems)
      from k i have "?fill channel ! i = Num (real_of_int (pcmSample bytes ?k) / 32768)"
        by (simp add: fill sampleAt_def length_int16_elems s del: of_int_sint)
      moreover have "- 32768 \<le> pcmSample bytes ?k" "pcmSample bytes ?k \<le> 32767"
        using sint_int16_range [of "?d ! ?k"] by (simp_all only: s)
      then have "- 1 \<le> real_of_int (pcmSample bytes ?k) / 32768"
        "real_of_int (pcmSample bytes ?k) / 32768 \<le> 1"
        by simp_all
      ultimately show ?thesis by blast
    qed
    with sel show ?thesis by (simp add: fill)
  qed
  have "length (channelBuffers ?buffer) = numChannels" by simp
  with dec per show ?thesis by blast
qed

text \<open>
  Claim C2, as amended. Decoding reads the buffer behind the array, which for the fresh
  array that \<^verbatim>\<open>decode\<close> builds holds exactly the array's bytes. When that payload has even
  byte length and at least one whole frame (at least \<open>2 * numChannels\<close> bytes), and the
  channel count (at least 1), the frame count and the sample rate (above 0) are below
  \<open>2 ^ 32\<close> and inside the nominal ranges of the audio engine, decoding returns a buffer
  with \<open>numChannels\<close> channels; each channel holds \<open>length bytes div 2 div numChannels\<close>
  samples, the 16-bit sample count divided by the channel count with a trailing partial
  frame dropped; sample \<open>i\<close> of a channel is the interleaved input sample at index
  \<open>i * numChannels + channel\<close> divided by 32768, and it lies between -1 and 1. A payload of
  odd byte length makes the 16-bit view throw, and a payload of even length makes
  \<^verbatim>\<open>createBuffer\<close> throw when it holds no whole frame or when the channel count, frame
  count and sample rate are outside the engine's nominal ranges: no buffer is produced.
\<close>

theorem decodeAudioData_frames:
  "(even (length (arrayBuffer data)) \<and> 2 * numChannels \<le> length (arrayBuffer data)
      \<and> 0 < numChannels \<and> numChannels < 2 ^ 32
      \<and> length (arrayBuffer data) div 2 div numChannels < 2 ^ 32
      \<and> 0 < rate
      \<and> nominalRange ctx numChannels (length (arrayBuffer data) div 2 div numChannels) rate
    \<longrightarrow>
      (\<exists>buffer. decodeAudioData pf data ctx rate numChannels = Inr buffer
         \<and> length (channelBuffers buffer) = numChannels
         \<and> (\<forall>channel < numChannels.
               length (channelBuffers buffer ! channel)
                 = length (arrayBuffer data) div 2 div numChannels
               \<and> (\<forall>i < length (arrayBuffer data) div 2 div numChannels.
                     \<exists>x. channelBuffers buffer ! channel ! i = Num x
                         \<and> x = real_of_int
                                 (pcmSample (arrayBuffer data) (i * numChannels + channel))
                               / 32768
                         \<and> - 1 \<le> x \<and> x \<le> 1))))
   \<and> (odd (length (arrayBuffer data)) \<longrightarrow>
        decodeAudioData pf data ctx rate numChannels
          = Inl (ErrorObj (int16ArrayMessage pf (length (arrayBuffer data)))))
   \<and> (even (length (arrayBuffer data)) \<and> length (arrayBuffer data) < 2 * numChannels \<longrightarrow>
        decodeAudioData pf data ctx rate numChannels
          = Inl (ErrorObj (createBufferMessage ctx numChannels
                   (real (length (arrayBuffer data) div 2) / real numChannels) rate)))
   \<and> (even (length (arrayBuffer data)) \<and> numChannels < 2 ^ 32
        \<and> length (arrayBuffer data) div 2 div numChannels < 2 ^ 32
        \<and> \<not> nominalRange ctx numChannels
              (length (arrayBuffer data) div 2 div numChannels) rate \<longrightarrow>
        decodeAudioData pf data ctx rate numChannels
          = Inl (ErrorObj (createBufferMessage ctx numChannels
                   (real (length (arrayBuffer data) div 2) / real numChannels) rate)))
   \<and> (decode pf b64 = Inr data \<longrightarrow>
        byteOffset data = 0 \<and> byteLength data = length (arrayBuffer data)
        \<and> uint8Elements data = arrayBuffer data)"
proof -
  have whole: "\<exists>buffer. decodeAudioData pf data ctx rate numChannels = Inr buffer
         \<and> length (channelBuffers buffer) = numChannels
         \<and> (\<forall>channel < numChannels.
               length (channelBuffers buffer ! channel)
                 = length (arrayBuffer data) div 2 div numChannels
               \<and> (\<forall>i < length (arrayBuffer data) div 2 div numChannels.
                     \<exists>x. channelBuffers buffer ! channel ! i = Num x
                         \<and> x = real_of_int
                                 (pcmSample (arrayBuffer data) (i * numChannels + channel))
                               / 32768
                         \<and> - 1 \<le> x \<and> x \<le> 1))"
    if "even (length (arrayBuffer data))" and "2 * numChannels \<le> length (arrayBuffer data)"
      and "0 < numChannels" and "numChannels < 2 ^ 32"
      and "length (arrayBuffer data) div 2 div numChannels < 2 ^ 32"
      and "0 < rate"
      and "nominalRange ctx numChannels (length (arrayBuffer data) div 2 div numChannels) rate"
    using that refl by (rule decodeAudioData_buffer)
  from whole decodeAudioData_odd [of data pf ctx rate numChannels]
    decodeAudioData_no_frame [of data numChannels pf ctx rate]
    decodeAudioData_outside_range [of data numChannels ctx rate pf]
    decode_fresh_array [of pf b64 data]
  show ?thesis by blast
qed

theorem decodeAudioData_frames_witness:
  "(\<exists>buffer. decodeAudioData demoPlatform demoPayload demoContext 24000 2 = Inr buffer
      \<and> length (channelBuffers buffer) = 2
      \<and> (\<forall>channel < 2.
            length (channelBuffers buffer ! channel) = 1
            \<and> (\<forall>i < 1.
                  \<exists>x. channelBuffers buffer ! channel ! i = Num x
                      \<and> x = real_of_int (pcmSample (arrayBuffer demoPayload) (i * 2 + channel))
                            / 32768
                      \<and> - 1 \<le> x \<and> x \<le> 1)))
   \<and> decodeAudioData demoPlatform oddPayload demoContext 24000 1
       = Inl (ErrorObj (int16ArrayMessage demoPlatform 3))
   \<and> decodeAudioData demoPlatform emptyPayload demoContext 24000 1
       = Inl (ErrorObj (createBufferMessage demoContext 1 0 24000))
   \<and> decodeAudioData demoPlatform demoPayload demoContext 1000 2
       = Inl (ErrorObj (createBufferMessage demoContext 2 (3 / 2) 1000))
   \<and> decode demoPlatform ''AAD/fw=='' = Inr speechPayload
   \<and> uint8Elements speechPayload = arrayBuffer speechPayload"
proof -
  have len: "length (arrayBuffer demoPayload) = 6" "length (arrayBuffer oddPayload) = 3"
    "length (arrayBuffer emptyPayload) = 0"
    by (simp_all add: demoPayload_def oddPayload_def emptyPayload_def)
  have range: "nominalRange demoContext 2 1 24000" "\<not> nominalRange demoContext 2 1 1000"
    by (simp_all add: demoContext_def)
  have speech: "decode demoPlatform ''AAD/fw=='' = Inr speechPayload"
    by (simp add: decode_def demoPlatform_def speechPayload_def)
  note whole = decodeAudioData_frames
    [of demoPayload 2 24000 demoContext demoPlatform "''AAD/fw==''"]
  note odd = decodeAudioData_frames
    [of oddPayload 1 24000 demoContext demoPlatform "''AAD/fw==''"]
  note none = decodeAudioData_frames
    [of emptyPayload 1 24000 demoContext demoPlatform "''AAD/fw==''"]
  note low = decodeAudioData_frames
    [of demoPayload 2 1000 demoContext demoPlatform "''AAD/fw==''"]
  note fresh = decodeAudioData_frames
    [of speechPayload 1 24000 demoContext demoPlatform "''AAD/fw==''"]
  from whole range(1) have 1:
    "\<exists>buffer. decodeAudioData demoPlatform demoPayload demoContext 24000 2 = Inr buffer
      \<and> length (channelBuffers buffer) = 2
      \<and> (\<forall>channel < 2.
            length (channelBuffers buffer ! channel) = 1
            \<and> (\<forall>i < 1.
                  \<exists>x. channelBuffers buffer ! channel ! i = Num x
                      \<and> x = real_of_int (pcmSample (arrayBuffer demoPayload) (i * 2 + channel))
                            / 32768
                      \<and> - 1 \<le> x \<and> x \<le> 1))"
    by (simp add: len)
  from odd have 2: "decodeAudioData demoPlatform oddPayload demoContext 24000 1
       = Inl (ErrorObj (int16ArrayMessage demoPlatform 3))"
    by (simp add: len)
  from none have 3: "decodeAudioData demoPlatform emptyPayload demoContext 24000 1
       = Inl (ErrorObj (createBufferMessage demoContext 1 0 24000))"
    by (simp add: len)
  from low range(2) have 4: "decodeAudioData demoPlatform demoPayload demoContext 1000 2
       = Inl (ErrorObj (createBufferMessage demoContext 2 (3 / 2) 1000))"
    by (simp add: len)
  from fresh speech have 5: "uint8Elements speechPayload = arrayBuffer speechPayload"
    by simp
  from 1 2 3 4 speech 5 show ?thesis by blast
qed

text \<open>
  Claim C2 as stated speaks of every byte payload. A payload of odd length is refused by
  the 16-bit view, and the empty payload, whose length is divisible by \<open>2 * numChannels\<close>,
  is refused by \<^verbatim>\<open>createBuffer\<close>: in both cases no buffer is produced.
\<close>

theorem decodeAudioData_every_payload_counterexample:
  "decodeAudioData demoPlatform oddPayload demoContext 24000 1
     = Inl (ErrorObj ''byte length of Int16Array should be a multiple of 2'')
   \<and> decodeAudioData demoPlatform emptyPayload demoContext 24000 1
     = Inl (ErrorObj ''createBuffer: not supported'')"
  by (simp add: decodeAudioData_def newInt16Array_def createBuffer_def oddPayload_def
      emptyPayload_def demoPlatform_def demoContext_def)

section \<open>The handlers: properties\<close>

text \<open>
  Claim C10. When the credential check reports that no key is selected, or the check
  itself throws, \<^verbatim>\<open>handleGenerate\<close> returns with the session unchanged except that the
  credential dialog is shown: the application state, the last request, the last result
  and the error message are what they were, no attempt is awaited and no collaborator
  call is issued.
\<close>

theorem handleGenerate_without_key:
  assumes "kc = HasSelectedApiKey False \<or> kc = CheckThrows e"
  shows "handleGenerate pf kc r params s = (s\<lparr>showApiKeyDialog := True\<rparr>, [])
         \<and> startAttempt pf kc params s = (s\<lparr>showApiKeyDialog := True\<rparr>, None, [])
         \<and> appState (fst (handleGenerate pf kc r params s)) = appState s
         \<and> lastConfig (fst (handleGenerate pf kc r params s)) = lastConfig s
         \<and> videoUrl (fst (handleGenerate pf kc r params s)) = videoUrl s
         \<and> audioBuffer (fst (handleGenerate pf kc r params s)) = audioBuffer s
         \<and> lastVideoObject (fst (handleGenerate pf kc r params s)) = lastVideoObject s
         \<and> lastVideoBlob (fst (handleGenerate pf kc r params s)) = lastVideoBlob s
         \<and> errorMessage (fst (handleGenerate pf kc r params s)) = errorMessage s
         \<and> initialFormValues (fst (handleGenerate pf kc r params s)) = initialFormValues s"
proof -
  from assms have "\<not> gatePasses kc" by (auto simp: gatePasses_def)
  then have start: "startAttempt pf kc params s = (s\<lparr>showApiKeyDialog := True\<rparr>, None, [])"
    by (simp add: startAttempt_def)
  then have "handleGenerate pf kc r params s = (s\<lparr>showApiKeyDialog := True\<rparr>, [])"
    by (simp add: handleGenerate_def)
  with start show ?thesis by simp
qed

theorem handleGenerate_without_key_witness:
  "(CheckThrows NonError = HasSelectedApiKey False \<or> CheckThrows NonError = CheckThrows NonError)
   \<and> handleGenerate demoPlatform (CheckThrows NonError) okResponse textRequest initialSession
       = (initialSession\<lparr>showApiKeyDialog := True\<rparr>, [])
   \<and> appState (fst (handleGenerate demoPlatform (CheckThrows NonError) okResponse textRequest
                     initialSession)) = IDLE"
proof -
  have h: "CheckThrows NonError = HasSelectedApiKey False \<or> CheckThrows NonError = CheckThrows NonError"
    by simp
  from handleGenerate_without_key [OF h, of demoPlatform okResponse textRequest initialSession]
  show ?thesis by (simp add: initialSession_def)
qed

text \<open>What a story attempt does before it awaits its calls.\<close>

lemma startAttempt_story:
  assumes "mode params = STORY_TO_VIDEO" and "gatePasses kc"
    and "jsonParse pf (prompt params) = Inr script"
  shows "startAttempt pf kc params s
           = (beginAttempt params s, Some AwaitVideoAndSpeech,
              [GenerateVideo
                 (params\<lparr>prompt := image_prompt script,
                         aspectRatio :=
                           inferAspectRatio (image_prompt script) (aspectRatio params)\<rparr>),
               GenerateSpeech (dialogue script) (voice_tone script)])"
  using assms by (simp add: startAttempt_def Let_def)

lemma settleAttempt_story_calls:
  "snd (settleAttempt pf r AwaitVideoAndSpeech s) = []
   \<or> (\<exists>b64. snd (settleAttempt pf r AwaitVideoAndSpeech s) = [DecodeAudio b64])"
  by (auto simp: settleAttempt_def split: sum.splits prod.splits)

lemma catchBlock_cells:
  "appState (catchBlock e s) = ERROR"
  "errorMessage (catchBlock e s) = Some (fst (classifyError (errorMessageOf e)))"
  "showApiKeyDialog (catchBlock e s)
     = (snd (classifyError (errorMessageOf e)) \<or> showApiKeyDialog s)"
  "videoUrl (catchBlock e s) = videoUrl s"
  "audioBuffer (catchBlock e s) = audioBuffer s"
  "lastVideoBlob (catchBlock e s) = lastVideoBlob s"
  "lastVideoObject (catchBlock e s) = lastVideoObject s"
  "lastConfig (catchBlock e s) = lastConfig s"
  "initialFormValues (catchBlock e s) = initialFormValues s"
  by (simp_all add: catchBlock_def Let_def split: prod.splits)

lemma beginAttempt_cells:
  "appState (beginAttempt params s) = LOADING"
  "errorMessage (beginAttempt params s) = None"
  "lastConfig (beginAttempt params s) = Some params"
  "initialFormValues (beginAttempt params s) = None"
  "videoUrl (beginAttempt params s) = videoUrl s"
  "audioBuffer (beginAttempt params s) = audioBuffer s"
  "lastVideoBlob (beginAttempt params s) = lastVideoBlob s"
  "lastVideoObject (beginAttempt params s) = lastVideoObject s"
  "showApiKeyDialog (beginAttempt params s) = showApiKeyDialog s"
  by (simp_all add: beginAttempt_def)

text \<open>
  Claim C3. For a story request whose script parses, the video call is issued first, with
  the script's image prompt and an aspect ratio read from that prompt alone: portrait when
  "9:16" or "vertical" occurs anywhere in it; otherwise landscape when "16:9" or
  "landscape" occurs; otherwise the aspect ratio of the request. The portrait test comes
  first, so portrait wins when markers of both kinds occur. The speech call follows, and
  the attempt issues no other video call.
\<close>

theorem story_video_call_aspect_ratio:
  assumes "mode params = STORY_TO_VIDEO" and "gatePasses kc"
    and "jsonParse pf (prompt params) = Inr script"
  shows "\<exists>later.
           snd (handleGenerate pf kc r params s)
             = GenerateVideo
                 (params\<lparr>prompt := image_prompt script,
                         aspectRatio :=
                           (if (\<exists>a b. image_prompt script = a @ ''9:16'' @ b)
                               \<or> (\<exists>a b. image_prompt script = a @ ''vertical'' @ b)
                            then PORTRAIT
                            else if (\<exists>a b. image_prompt script = a @ ''16:9'' @ b)
                                    \<or> (\<exists>a b. image_prompt script = a @ ''landscape'' @ b)
                            then LANDSCAPE
                            else aspectRatio params)\<rparr>)
               # GenerateSpeech (dialogue script) (voice_tone script) # later
           \<and> (\<forall>c \<in> set later. \<exists>b64. c = DecodeAudio b64)"
proof -
  let ?s1 = "beginAttempt params s"
  let ?later = "snd (settleAttempt pf r AwaitVideoAndSpeech ?s1)"
  have ratio:
    "inferAspectRatio (image_prompt script) (aspectRatio params)
       = (if (\<exists>a b. image_prompt script = a @ ''9:16'' @ b)
             \<or> (\<exists>a b. image_prompt script = a @ ''vertical'' @ b)
          then PORTRAIT
          else if (\<exists>a b. image_prompt script = a @ ''16:9'' @ b)
                  \<or> (\<exists>a b. image_prompt script = a @ ''landscape'' @ b)
          then LANDSCAPE
          else aspectRatio params)"
    unfolding inferAspectRatio_def str_includes_iff by (rule refl)
  have "snd (handleGenerate pf kc r params s)
          = [GenerateVideo
               (params\<lparr>prompt := image_prompt script,
                       aspectRatio :=
                         inferAspectRatio (image_prompt script) (aspectRatio params)\<rparr>),
             GenerateSpeech (dialogue script) (voice_tone script)] @ ?later"
    by (simp add: handleGenerate_def startAttempt_story [OF assms] split: prod.splits)
  moreover have "\<forall>c \<in> set ?later. \<exists>b64. c = DecodeAudio b64"
    using settleAttempt_story_calls [of pf r ?s1] by auto
  ultimately show ?thesis unfolding ratio by simp
qed

theorem story_video_call_aspect_ratio_witness:
  "mode storyRequest = STORY_TO_VIDEO \<and> gatePasses NoAistudio
   \<and> aspectRatio storyRequest = LANDSCAPE
   \<and> (\<exists>later.
         snd (handleGenerate demoPlatform NoAistudio okResponse storyRequest initialSession)
           = GenerateVideo (storyRequest\<lparr>prompt := ''a cat, 9:16'', aspectRatio := PORTRAIT\<rparr>)
             # GenerateSpeech ''Hi'' ''warm'' # later
         \<and> (\<forall>c \<in> set later. \<exists>b64. c = DecodeAudio b64))"
proof -
  let ?script = "\<lparr>dialogue = ''Hi'', voice_tone = ''warm'', image_prompt = ''a cat, 9:16''\<rparr>"
  have h: "mode storyRequest = STORY_TO_VIDEO" "gatePasses NoAistudio"
    "jsonParse demoPlatform (prompt storyRequest) = Inr ?script"
    by (simp_all add: storyRequest_def gatePasses_def demoPlatform_def)
  have marker: "\<exists>a b. ''a cat, 9:16'' = a @ ''9:16'' @ b"
    unfolding str_includes_iff [symmetric] by simp
  have l: "aspectRatio storyRequest = LANDSCAPE"
    by (simp add: storyRequest_def textRequest_def)
  from story_video_call_aspect_ratio [OF h, of okResponse initialSession] marker h(1,2) l
  show ?thesis by simp
qed

text \<open>
  Claim C1. In a story attempt whose two calls have been issued, when the video call or
  the speech call fails the attempt fails as a whole: the session ends in \<open>ERROR\<close> with the
  classified message of a failed call, the result cells (video URL, audio buffer, video
  payload, video handle) are what they were before the attempt, so the outcome of the
  call that succeeded is dropped, and the calls of the attempt are the two collaborator
  calls only, with no decoding of audio.
\<close>

theorem story_join_fails_as_a_whole:
  assumes "mode params = STORY_TO_VIDEO" and "gatePasses kc"
    and "jsonParse pf (prompt params) = Inr script"
    and "isl (videoOutcome r) \<or> isl (speechOutcome r)"
  shows "\<exists>e s'.
           (videoOutcome r = Inl e \<or> speechOutcome r = Inl e)
           \<and> handleGenerate pf kc r params s
               = (s', [GenerateVideo
                         (params\<lparr>prompt := image_prompt script,
                                 aspectRatio :=
                                   inferAspectRatio (image_prompt script) (aspectRatio params)\<rparr>),
                       GenerateSpeech (dialogue script) (voice_tone script)])
           \<and> appState s' = ERROR
           \<and> errorMessage s' = Some (fst (classifyError (errorMessageOf e)))
           \<and> videoUrl s' = videoUrl s
           \<and> audioBuffer s' = audioBuffer s
           \<and> lastVideoBlob s' = lastVideoBlob s
           \<and> lastVideoObject s' = lastVideoObject s"
proof -
  let ?s1 = "beginAttempt params s"
  have "\<exists>e. (videoOutcome r = Inl e \<or> speechOutcome r = Inl e)
            \<and> promiseAll (speechSettlesFirst r) (videoOutcome r) (speechOutcome r) = Inl e"
  proof (cases "videoOutcome r")
    case video_failed: (Inl e1)
    show ?thesis
    proof (cases "speechOutcome r")
      case (Inl e2)
      with video_failed show ?thesis
        by (cases "speechSettlesFirst r") (simp_all add: promiseAll_def)
    next
      case (Inr b64)
      with video_failed show ?thesis by (simp add: promiseAll_def)
    qed
  next
    case video_ok: (Inr v)
    with assms(4) obtain e2 where "speechOutcome r = Inl e2"
      by (cases "speechOutcome r") simp_all
    with video_ok show ?thesis by (simp add: promiseAll_def)
  qed
  then obtain e where
    e: "videoOutcome r = Inl e \<or> speechOutcome r = Inl e"
    and join: "promiseAll (speechSettlesFirst r) (videoOutcome r) (speechOutcome r) = Inl e"
    by blast
  from join have settle: "settleAttempt pf r AwaitVideoAndSpeech ?s1 = (catchBlock e ?s1, [])"
    by (simp add: settleAttempt_def)
  have "handleGenerate pf kc r params s
          = (catchBlock e ?s1,
             [GenerateVideo
                (params\<lparr>prompt := image_prompt script,
                        aspectRatio :=
                          inferAspectRatio (image_prompt script) (aspectRatio params)\<rparr>),
              GenerateSpeech (dialogue script) (voice_tone script)])"
    by (simp add: handleGenerate_def startAttempt_story [OF assms(1-3)] settle)
  moreover have "appState (catchBlock e ?s1) = ERROR"
    "errorMessage (catchBlock e ?s1) = Some (fst (classifyError (errorMessageOf e)))"
    "videoUrl (catchBlock e ?s1) = videoUrl s"
    "audioBuffer (catchBlock e ?s1) = audioBuffer s"
    "lastVideoBlob (catchBlock e ?s1) = lastVideoBlob s"
    "lastVideoObject (catchBlock e ?s1) = lastVideoObject s"
    by (simp_all add: catchBlock_cells beginAttempt_cells)
  ultimately show ?thesis using e by blast
qed

theorem story_join_fails_as_a_whole_witness:
  "mode storyRequest = STORY_TO_VIDEO \<and> gatePasses NoAistudio
   \<and> (isl (videoOutcome failedResponse) \<or> isl (speechOutcome failedResponse))
   \<and> videoOutcome failedResponse = Inr demoVideo
   \<and> (\<exists>s'. handleGenerate demoPlatform NoAistudio failedResponse storyRequest initialSession
               = (s', [GenerateVideo
                         (storyRequest\<lparr>prompt := ''a cat, 9:16'', aspectRatio := PORTRAIT\<rparr>),
                       GenerateSpeech ''Hi'' ''warm''])
          \<and> appState s' = ERROR
          \<and> errorMessage s' = Some ''Video generation failed: quota exceeded''
          \<and> videoUrl s' = None
          \<and> audioBuffer s' = None
          \<and> lastVideoBlob s' = None
          \<and> lastVideoObject s' = None)"
proof -
  let ?script = "\<lparr>dialogue = ''Hi'', voice_tone = ''warm'', image_prompt = ''a cat, 9:16''\<rparr>"
  have h: "mode storyRequest = STORY_TO_VIDEO" "gatePasses NoAistudio"
    "jsonParse demoPlatform (prompt storyRequest) = Inr ?script"
    "isl (videoOutcome failedResponse) \<or> isl (speechOutcome failedResponse)"
    by (simp_all add: storyRequest_def gatePasses_def demoPlatform_def failedResponse_def)
  have v: "videoOutcome failedResponse = Inr demoVideo"
    "speechOutcome failedResponse = Inl (ErrorObj ''quota exceeded'')"
    by (simp_all add: failedResponse_def)
  have ratio: "inferAspectRatio ''a cat, 9:16'' (aspectRatio storyRequest) = PORTRAIT"
    by (simp add: inferAspectRatio_def)
  have msg: "fst (classifyError (errorMessageOf (ErrorObj ''quota exceeded'')))
               = ''Video generation failed: quota exceeded''"
    by (simp add: classifyError_def errorMessageOf_def toLowerCase_def toLowerCaseChar_def)
  from story_join_fails_as_a_whole [OF h, of initialSession]
  obtain e s' where
    "videoOutcome failedResponse = Inl e \<or> speechOutcome failedResponse = Inl e"
    and run: "handleGenerate demoPlatform NoAistudio failedResponse storyRequest initialSession
           = (s', [GenerateVideo
                     (storyRequest\<lparr>prompt := image_prompt ?script,
                        aspectRatio :=
                          inferAspectRatio (image_prompt ?script) (aspectRatio storyRequest)\<rparr>),
                   GenerateSpeech (dialogue ?script) (voice_tone ?script)])"
    and cells: "appState s' = ERROR"
      "errorMessage s' = Some (fst (classifyError (errorMessageOf e)))"
      "videoUrl s' = videoUrl initialSession"
      "audioBuffer s' = audioBuffer initialSession"
      "lastVideoBlob s' = lastVideoBlob initialSession"
      "lastVideoObject s' = lastVideoObject initialSession"
    by blast
  then have e: "e = ErrorObj ''quota exceeded''" using v by simp
  from run have "handleGenerate demoPlatform NoAistudio failedResponse storyRequest initialSession
           = (s', [GenerateVideo
                     (storyRequest\<lparr>prompt := ''a cat, 9:16'', aspectRatio := PORTRAIT\<rparr>),
                   GenerateSpeech ''Hi'' ''warm''])"
    by (simp add: ratio)
  moreover from cells have "appState s' = ERROR"
    "errorMessage s' = Some ''Video generation failed: quota exceeded''"
    "videoUrl s' = None" "audioBuffer s' = None" "lastVideoBlob s' = None"
    "lastVideoObject s' = None"
    by (simp_all add: e msg initialSession_def)
  ultimately show ?thesis using h(1,2,4) v(1) by blast
qed

section \<open>The state machine: properties\<close>

lemma startAttempt_shapes:
  assumes "startAttempt pf kc params s = (s', p, calls)"
  shows "(p = None \<and> appState s' = appState s) \<or> (p = None \<and> appState s' = ERROR)
         \<or> (p \<noteq> None \<and> appState s' = LOADING)"
  using assms
  by (auto simp: startAttempt_def Let_def catchBlock_cells beginAttempt_cells
      split: if_splits sum.splits)

lemma handleRetry_shapes:
  assumes "handleRetry pf kc lastCfg s = (s', p, calls)"
  shows "(p = None \<and> appState s' = appState s) \<or> (p = None \<and> appState s' = ERROR)
         \<or> (p \<noteq> None \<and> appState s' = LOADING)"
proof (cases lastCfg)
  case None
  with assms show ?thesis by (simp add: handleRetry_def)
next
  case (Some cfg)
  with assms have "startAttempt pf kc cfg s = (s', p, calls)" by (simp add: handleRetry_def)
  then show ?thesis by (rule startAttempt_shapes)
qed

lemma handleApiKeyDialogContinue_shapes:
  assumes "handleApiKeyDialogContinue pf sel kc s s = (s', p, calls)"
  shows "(p = None \<and> appState s' = appState s)
         \<or> (appState s = ERROR \<and> p \<noteq> None \<and> appState s' = LOADING)"
proof (cases "(\<forall>e. sel \<noteq> SelectionThrows e) \<and> appState s = ERROR \<and> lastConfig s \<noteq> None")
  case True
  with assms
  have "handleRetry pf kc (lastConfig s) (s\<lparr>showApiKeyDialog := False\<rparr>) = (s', p, calls)"
    by (cases sel) (simp_all add: handleApiKeyDialogContinue_def)
  from handleRetry_shapes [OF this] True show ?thesis by auto
next
  case False
  with assms have "s' = s\<lparr>showApiKeyDialog := False\<rparr>" and "p = None"
    by (cases sel; auto simp: handleApiKeyDialogContinue_def)+
  then show ?thesis by simp
qed

lemma settleAttempt_state:
  "appState (fst (settleAttempt pf r p s)) = SUCCESS
   \<or> appState (fst (settleAttempt pf r p s)) = ERROR"
  by (cases p) (auto simp: settleAttempt_def catchBlock_cells split: sum.splits prod.splits)

lemma session_launch: "session (launch m started) = fst started"
  by (cases started) (simp add: launch_def)

lemma launch_cells:
  "session (launch m (s, p, calls)) = s"
  "inFlight (launch m (s, None, calls)) = inFlight m"
  "inFlight (launch m (s, Some q, calls)) = Some q"
  by (simp_all add: launch_def)

lemma handleExtend_state:
  "appState (handleExtend s) = appState s \<or> appState (handleExtend s) = IDLE"
  by (auto simp: handleExtend_def split: option.splits)

lemma handleTryAgainFromError_state: "appState (handleTryAgainFromError s) = IDLE"
  by (simp add: handleTryAgainFromError_def handleNewVideo_def split: option.splits)

text \<open>An attempt is in flight exactly while the session is \<open>LOADING\<close>.\<close>

lemma step_keeps_in_flight_iff_loading:
  assumes inv: "(inFlight m \<noteq> None) = (appState (session m) = LOADING)"
    and st: "step pf m ev = Some m'"
  shows "(inFlight m' \<noteq> None) = (appState (session m') = LOADING)"
proof -
  from st have off: "offered (session m) ev" by (auto simp: step_def split: if_splits)
  have launched:
    "(inFlight (launch m started) \<noteq> None) = (appState (session (launch m started)) = LOADING)"
    if shapes: "(fst (snd started) = None \<and> appState (fst started) = appState (session m))
                \<or> (fst (snd started) = None \<and> appState (fst started) = ERROR)
                \<or> (fst (snd started) \<noteq> None \<and> appState (fst started) = LOADING)"
      and quiet: "appState (fst started) = ERROR \<Longrightarrow> inFlight m = None"
    for started
  proof -
    obtain s p calls where started: "started = (s, p, calls)" by (cases started) auto
    show ?thesis
    proof (cases p)
      case None
      with shapes started quiet inv show ?thesis by (auto simp: launch_cells)
    next
      case (Some q)
      with shapes started show ?thesis by (auto simp: launch_cells)
    qed
  qed
  show ?thesis
  proof (cases ev)
    case (Submit params kc)
    let ?st = "startAttempt pf kc params (session m)"
    from off Submit have idle: "appState (session m) = IDLE" by (simp add: offered_def)
    with inv have none: "inFlight m = None" by auto
    from st off Submit have m': "m' = launch m ?st" by (simp add: step_def)
    have "(fst (snd ?st) = None \<and> appState (fst ?st) = appState (session m))
          \<or> (fst (snd ?st) = None \<and> appState (fst ?st) = ERROR)
          \<or> (fst (snd ?st) \<noteq> None \<and> appState (fst ?st) = LOADING)"
      using startAttempt_shapes [of pf kc params "session m" "fst ?st" "fst (snd ?st)" "snd (snd ?st)"]
      by simp
    then show ?thesis unfolding m' using none by (rule launched)
  next
    case (RetryClick kc)
    let ?st = "handleRetry pf kc (lastConfig (session m)) (session m)"
    from off RetryClick have "appState (session m) = SUCCESS" by (simp add: offered_def)
    with inv have none: "inFlight m = None" by auto
    from st off RetryClick have m': "m' = launch m ?st" by (simp add: step_def)
    have "(fst (snd ?st) = None \<and> appState (fst ?st) = appState (session m))
          \<or> (fst (snd ?st) = None \<and> appState (fst ?st) = ERROR)
          \<or> (fst (snd ?st) \<noteq> None \<and> appState (fst ?st) = LOADING)"
      using handleRetry_shapes
        [of pf kc "lastConfig (session m)" "session m" "fst ?st" "fst (snd ?st)" "snd (snd ?st)"]
      by simp
    then show ?thesis unfolding m' using none by (rule launched)
  next
    case ExtendClick
    from off ExtendClick have "appState (session m) = SUCCESS" by (simp add: offered_def)
    moreover from st off ExtendClick have "m' = m\<lparr>session := handleExtend (session m)\<rparr>"
      by (simp add: step_def)
    ultimately show ?thesis using inv handleExtend_state [of "session m"] by auto
  next
    case NewVideoClick
    from off NewVideoClick have "appState (session m) = SUCCESS" by (simp add: offered_def)
    moreover from st off NewVideoClick have "m' = m\<lparr>session := handleNewVideo (session m)\<rparr>"
      by (simp add: step_def)
    ultimately show ?thesis using inv by (auto simp: handleNewVideo_def)
  next
    case TryAgainClick
    from off TryAgainClick have "appState (session m) \<noteq> LOADING"
      by (auto simp: offered_def split: if_splits)
    moreover from st off TryAgainClick
    have "m' = m\<lparr>session := handleTryAgainFromError (session m)\<rparr>"
      by (simp add: step_def)
    ultimately show ?thesis using inv by (auto simp: handleTryAgainFromError_state)
  next
    case (DialogContinue sel kc)
    let ?st = "handleApiKeyDialogContinue pf sel kc (session m) (session m)"
    from st off DialogContinue have m': "m' = launch m ?st" by (simp add: step_def)
    have shapes: "(fst (snd ?st) = None \<and> appState (fst ?st) = appState (session m))
          \<or> (appState (session m) = ERROR \<and> fst (snd ?st) \<noteq> None
              \<and> appState (fst ?st) = LOADING)"
      using handleApiKeyDialogContinue_shapes
        [of pf sel kc "session m" "fst ?st" "fst (snd ?st)" "snd (snd ?st)"]
      by simp
    have "(fst (snd ?st) = None \<and> appState (fst ?st) = appState (session m))
          \<or> (fst (snd ?st) = None \<and> appState (fst ?st) = ERROR)
          \<or> (fst (snd ?st) \<noteq> None \<and> appState (fst ?st) = LOADING)"
      using shapes by auto
    moreover have "inFlight m = None" if "appState (fst ?st) = ERROR"
      using that shapes inv by auto
    ultimately show ?thesis unfolding m' by (rule launched)
  next
    case (Settled r)
    with st off obtain p where p: "inFlight m = Some p"
      by (auto simp: step_def split: option.splits)
    with st off Settled have "session m' = fst (settleAttempt pf r p (session m))"
      and "inFlight m' = None"
      by (auto simp: step_def split: prod.splits)
    with settleAttempt_state [of pf r p "session m"] show ?thesis by auto
  qed
qed

lemma reachable_in_flight_iff_loading:
  "reachable pf m \<Longrightarrow> (inFlight m \<noteq> None) = (appState (session m) = LOADING)"
proof (induction rule: reachable.induct)
  case reachable_initial
  show ?case by (simp add: initialMachine_def initialSession_def)
next
  case (reachable_step m ev m')
  from reachable_step.IH reachable_step.hyps(2) show ?case
    by (rule step_keeps_in_flight_iff_loading)
qed

lemma run_reachable:
  "reachable pf m \<Longrightarrow> run pf m evs = Some m' \<Longrightarrow> reachable pf m'"
proof (induction evs arbitrary: m)
  case Nil
  then show ?case by simp
next
  case (Cons ev evs)
  from Cons.prems(2) obtain m1 where s: "step pf m ev = Some m1" and r: "run pf m1 evs = Some m'"
    by (auto split: option.splits)
  from Cons.prems(1) s have "reachable pf m1" by (rule reachable_step)
  then show ?case using r by (rule Cons.IH)
qed

subsection \<open>Example runs\<close>

lemma demo_speech_decoded:
  "newAudioContext demoPlatform = Inr demoContext"
  "decode demoPlatform ''AAD/fw=='' = Inr speechPayload"
  "decodeAudioData demoPlatform speechPayload demoContext 24000 1 = Inr demoAudio"
  "decodeAudioData demoPlatform speechPayload demoContext 24000 (Suc 0) = Inr demoAudio"
proof -
  show "newAudioContext demoPlatform = Inr demoContext" by (simp add: demoPlatform_def)
  show "decode demoPlatform ''AAD/fw=='' = Inr speechPayload"
    by (simp add: decode_def demoPlatform_def speechPayload_def)
  have view: "newInt16Array demoPlatform (arrayBuffer speechPayload)
                = Inr [word_cat (0x00 :: byte) (0x00 :: byte), word_cat (0x7F :: byte) (0xFF :: byte)]"
    by (simp add: newInt16Array_def speechPayload_def)
  have s0: "sint (word_cat (0x00 :: byte) (0x00 :: byte) :: int16) = 0"
    by (simp only: sint_int16 uint_word_cat_bytes) simp
  have s1: "sint (word_cat (0x7F :: byte) (0xFF :: byte) :: int16) = 32767"
    by (simp only: sint_int16 uint_word_cat_bytes) simp
  have buffer: "createBuffer demoContext (Suc 0) 2 24000
                  = Inr \<lparr>sampleRate = 24000, channelBuffers = [[Num 0, Num 0]]\<rparr>"
  proof -
    have "createBuffer demoContext (Suc 0) 2 24000
            = Inr \<lparr>sampleRate = 24000,
                     channelBuffers = replicate (Suc 0) (replicate 2 (Num 0))\<rparr>"
      by (simp add: createBuffer_def demoContext_def Let_def)
    moreover have "replicate 2 (Num 0 :: jsnum) = [Num 0, Num 0]"
      by (simp add: numeral_2_eq_2)
    ultimately show ?thesis by simp
  qed
  show one: "decodeAudioData demoPlatform speechPayload demoContext 24000 1 = Inr demoAudio"
    by (simp add: decodeAudioData_def view buffer demoAudio_def
        fillChannel.simps f32_store_def sampleAt_def s0 s1 del: of_int_sint)
  then show "decodeAudioData demoPlatform speechPayload demoContext 24000 (Suc 0) = Inr demoAudio"
    by simp
qed

lemma demo_facts:
  "jsonParse demoPlatform storyPrompt
     = Inr \<lparr>dialogue = ''Hi'', voice_tone = ''warm'', image_prompt = ''a cat, 9:16''\<rparr>"
  "prompt storyRequest = storyPrompt"
  "mode storyRequest = STORY_TO_VIDEO"
  "aspectRatio storyRequest = LANDSCAPE"
  "resolution storyRequest = P720"
  "mode textRequest = TEXT_TO_VIDEO"
  "resolution textRequest = P720"
  by (simp_all add: demoPlatform_def storyRequest_def textRequest_def)

lemmas demo_defs =
  okResponse_def failedResponse_def demoVideo_def initialMachine_def initialSession_def

lemmas handler_defs =
  step_def offered_def launch_def startAttempt_def settleAttempt_def handleRetry_def
  handleTryAgainFromError_def handleNewVideo_def handleExtend_def
  handleApiKeyDialogContinue_def beginAttempt_def catchBlock_def gatePasses_def truthy_def
  canExtend_def promiseAll_def inferAspectRatio_def classifyError_def errorMessageOf_def
  toLowerCase_def toLowerCaseChar_def

lemma run_story_then_failed_retry:
  "run demoPlatform initialMachine
     [Submit storyRequest NoAistudio, Settled okResponse, RetryClick NoAistudio,
      Settled failedResponse, TryAgainClick]
   = Some \<lparr>session =
             \<lparr>appState = IDLE, videoUrl = Some ''blob:video-1'', audioBuffer = Some demoAudio,
              errorMessage = None, lastConfig = Some storyRequest,
              lastVideoObject = Some (VideoHandle ''files/video-1''),
              lastVideoBlob = Some \<lparr>blobBytes = [0x00, 0x01], blobType = ''video/mp4''\<rparr>,
              showApiKeyDialog = False, initialFormValues = Some storyRequest\<rparr>,
            inFlight = None,
            issued =
              [GenerateVideo (storyRequest\<lparr>prompt := ''a cat, 9:16'', aspectRatio := PORTRAIT\<rparr>),
               GenerateSpeech ''Hi'' ''warm'', DecodeAudio ''AAD/fw=='',
               GenerateVideo (storyRequest\<lparr>prompt := ''a cat, 9:16'', aspectRatio := PORTRAIT\<rparr>),
               GenerateSpeech ''Hi'' ''warm'']\<rparr>"
  by (simp add: handler_defs demo_defs demo_facts demo_speech_decoded)

lemma run_append:
  "run pf m (xs @ ys) = (case run pf m xs of None \<Rightarrow> None | Some m' \<Rightarrow> run pf m' ys)"
  by (induction xs arbitrary: m) (simp_all split: option.splits)

lemma run_stale_submit:
  "run demoPlatform initialMachine
     [Submit storyRequest NoAistudio, Settled okResponse, RetryClick NoAistudio,
      Settled failedResponse, TryAgainClick, Submit textRequest NoAistudio]
   = Some \<lparr>session =
             \<lparr>appState = LOADING, videoUrl = Some ''blob:video-1'', audioBuffer = Some demoAudio,
              errorMessage = None, lastConfig = Some textRequest,
              lastVideoObject = Some (VideoHandle ''files/video-1''),
              lastVideoBlob = Some \<lparr>blobBytes = [0x00, 0x01], blobType = ''video/mp4''\<rparr>,
              showApiKeyDialog = False, initialFormValues = None\<rparr>,
            inFlight = Some AwaitVideo,
            issued =
              [GenerateVideo (storyRequest\<lparr>prompt := ''a cat, 9:16'', aspectRatio := PORTRAIT\<rparr>),
               GenerateSpeech ''Hi'' ''warm'', DecodeAudio ''AAD/fw=='',
               GenerateVideo (storyRequest\<lparr>prompt := ''a cat, 9:16'', aspectRatio := PORTRAIT\<rparr>),
               GenerateSpeech ''Hi'' ''warm'', GenerateVideo textRequest]\<rparr>"
proof -
  have split: "[Submit storyRequest NoAistudio, Settled okResponse, RetryClick NoAistudio,
                Settled failedResponse, TryAgainClick, Submit textRequest NoAistudio]
               = [Submit storyRequest NoAistudio, Settled okResponse, RetryClick NoAistudio,
                  Settled failedResponse, TryAgainClick] @ [Submit textRequest NoAistudio]"
    by simp
  show ?thesis
    unfolding split run_append run_story_then_failed_retry
    by (simp add: handler_defs demo_facts)
qed

lemma run_stale_success:
  "run demoPlatform initialMachine
     [Submit storyRequest NoAistudio, Settled okResponse, RetryClick NoAistudio,
      Settled failedResponse, TryAgainClick, Submit textRequest NoAistudio, Settled okResponse]
   = Some \<lparr>session =
             \<lparr>appState = SUCCESS, videoUrl = Some ''blob:video-1'', audioBuffer = Some demoAudio,
              errorMessage = None, lastConfig = Some textRequest,
              lastVideoObject = Some (VideoHandle ''files/video-1''),
              lastVideoBlob = Some \<lparr>blobBytes = [0x00, 0x01], blobType = ''video/mp4''\<rparr>,
              showApiKeyDialog = False, initialFormValues = None\<rparr>,
            inFlight = None,
            issued =
              [GenerateVideo (storyRequest\<lparr>prompt := ''a cat, 9:16'', aspectRatio := PORTRAIT\<rparr>),
               GenerateSpeech ''Hi'' ''warm'', DecodeAudio ''AAD/fw=='',
               GenerateVideo (storyRequest\<lparr>prompt := ''a cat, 9:16'', aspectRatio := PORTRAIT\<rparr>),
               GenerateSpeech ''Hi'' ''warm'', GenerateVideo textRequest]\<rparr>"
proof -
  have split: "[Submit storyRequest NoAistudio, Settled okResponse, RetryClick NoAistudio,
                Settled failedResponse, TryAgainClick, Submit textRequest NoAistudio,
                Settled okResponse]
               = [Submit storyRequest NoAistudio, Settled okResponse, RetryClick NoAistudio,
                  Settled failedResponse, TryAgainClick, Submit textRequest NoAistudio]
                 @ [Settled okResponse]"
    by simp
  show ?thesis
    unfolding split run_append run_stale_submit
    by (simp add: handler_defs demo_defs)
qed

lemma run_text_success:
  "run demoPlatform initialMachine [Submit textRequest NoAistudio, Settled okResponse]
   = Some textSuccess"
  by (simp add: handler_defs demo_defs demo_facts textSuccess_def)



lemma run_story_failed:
  "run demoPlatform initialMachine [Submit storyRequest NoAistudio, Settled failedResponse]
   = Some storyFailed"
  by (simp add: handler_defs demo_defs demo_facts storyFailed_def)

subsection \<open>Submitting does not clear the previous result\<close>

text \<open>
  Claim C7 says that a submit that passes the credential gate moves the session from
  \<open>IDLE\<close> to \<open>LOADING\<close>, stores the request as the last request and clears the previous
  video URL and audio buffer. \<^verbatim>\<open>handleGenerate\<close> does the first two and resets the error
  message and the form's initial values, but never writes the video URL or the audio
  buffer before the attempt; \<^verbatim>\<open>handleNewVideo\<close> and \<^verbatim>\<open>handleExtend\<close> do clear both. After a
  successful story, a failed retry and "try again", the session is \<open>IDLE\<close> with the story's
  video URL and audio buffer still stored, and the submit of a plain request there leaves
  it \<open>LOADING\<close> with both still stored.
\<close>

theorem submit_keeps_previous_result:
  "sessionAfter demoPlatform
     [Submit storyRequest NoAistudio, Settled okResponse, RetryClick NoAistudio,
      Settled failedResponse, TryAgainClick]
   = Some \<lparr>appState = IDLE, videoUrl = Some ''blob:video-1'', audioBuffer = Some demoAudio,
            errorMessage = None, lastConfig = Some storyRequest,
            lastVideoObject = Some (VideoHandle ''files/video-1''),
            lastVideoBlob = Some \<lparr>blobBytes = [0x00, 0x01], blobType = ''video/mp4''\<rparr>,
            showApiKeyDialog = False, initialFormValues = Some storyRequest\<rparr>
   \<and> sessionAfter demoPlatform
       [Submit storyRequest NoAistudio, Settled okResponse, RetryClick NoAistudio,
        Settled failedResponse, TryAgainClick, Submit textRequest NoAistudio]
     = Some \<lparr>appState = LOADING, videoUrl = Some ''blob:video-1'', audioBuffer = Some demoAudio,
              errorMessage = None, lastConfig = Some textRequest,
              lastVideoObject = Some (VideoHandle ''files/video-1''),
              lastVideoBlob = Some \<lparr>blobBytes = [0x00, 0x01], blobType = ''video/mp4''\<rparr>,
              showApiKeyDialog = False, initialFormValues = None\<rparr>"
  unfolding sessionAfter_def run_story_then_failed_retry run_stale_submit by simp

subsection \<open>A stale audio buffer beside a plain video\<close>

text \<open>
  Claim C4 says that in every reachable \<open>SUCCESS\<close> state an audio buffer is stored only if
  the request that produced the displayed result is a story. The run of claim C7,
  continued by the success of the plain request, ends in \<open>SUCCESS\<close> with the plain request
  as the last request, its video as the result, and the audio buffer decoded for the
  earlier story still stored; the result view plays that buffer with the video.
\<close>

theorem text_success_keeps_story_audio:
  "sessionAfter demoPlatform
     [Submit storyRequest NoAistudio, Settled okResponse, RetryClick NoAistudio,
      Settled failedResponse, TryAgainClick, Submit textRequest NoAistudio, Settled okResponse]
   = Some \<lparr>appState = SUCCESS, videoUrl = Some ''blob:video-1'', audioBuffer = Some demoAudio,
            errorMessage = None, lastConfig = Some textRequest,
            lastVideoObject = Some (VideoHandle ''files/video-1''),
            lastVideoBlob = Some \<lparr>blobBytes = [0x00, 0x01], blobType = ''video/mp4''\<rparr>,
            showApiKeyDialog = False, initialFormValues = None\<rparr>
   \<and> mode textRequest = TEXT_TO_VIDEO"
  unfolding sessionAfter_def run_stale_success by (simp add: demo_facts)

text \<open>From the initial session the end-to-end scenario of the claim does hold: a plain
  request that succeeds leaves no audio buffer.\<close>

lemma first_text_success_has_no_audio:
  "sessionAfter demoPlatform [Submit textRequest NoAistudio, Settled okResponse]
     = Some (session textSuccess)
   \<and> appState (session textSuccess) = SUCCESS \<and> audioBuffer (session textSuccess) = None"
  unfolding sessionAfter_def run_text_success by (simp add: textSuccess_def)

subsection \<open>Try again\<close>

lemma classifyError_message_nonempty: "fst (classifyError msg) \<noteq> []"
  by (simp add: classifyError_def modelNotFoundMessage_def invalidKeyMessage_def)

lemma startAttempt_results:
  "fst (startAttempt pf kc params s) = s\<lparr>showApiKeyDialog := True\<rparr>
   \<or> (\<exists>e. fst (startAttempt pf kc params s) = catchBlock e (beginAttempt params s))
   \<or> fst (startAttempt pf kc params s) = beginAttempt params s"
  by (auto simp: startAttempt_def Let_def split: sum.splits)

lemma settleAttempt_results:
  "(\<exists>e. fst (settleAttempt pf r p s) = catchBlock e s)
   \<or> (appState (fst (settleAttempt pf r p s)) = SUCCESS
       \<and> lastConfig (fst (settleAttempt pf r p s)) = lastConfig s)"
  by (cases p) (auto simp: settleAttempt_def split: sum.splits prod.splits)

lemma errorCellsSet_started:
  assumes "errorCellsSet s"
  shows "errorCellsSet (fst (startAttempt pf kc params s))"
  using assms startAttempt_results [of pf kc params s]
  by (auto simp: errorCellsSet_def catchBlock_cells beginAttempt_cells truthy_def
      classifyError_message_nonempty)

lemma errorCellsSet_retried:
  assumes "errorCellsSet s"
  shows "errorCellsSet (fst (handleRetry pf kc lastCfg s))"
proof (cases lastCfg)
  case None
  with assms show ?thesis by (simp add: handleRetry_def)
next
  case (Some cfg)
  with errorCellsSet_started [OF assms, of pf kc cfg] show ?thesis
    by (simp add: handleRetry_def)
qed

lemma errorCellsSet_dialog_closed:
  assumes "errorCellsSet s"
  shows "errorCellsSet (s\<lparr>showApiKeyDialog := False\<rparr>)"
  using assms by (simp add: errorCellsSet_def)

lemma errorCellsSet_continued:
  assumes "errorCellsSet s"
  shows "errorCellsSet (fst (handleApiKeyDialogContinue pf sel kc rendered s))"
  using errorCellsSet_retried [OF errorCellsSet_dialog_closed [OF assms], of pf kc "lastConfig rendered"]
    errorCellsSet_dialog_closed [OF assms]
  by (cases sel) (simp_all add: handleApiKeyDialogContinue_def Let_def)

lemma errorCellsSet_settled:
  assumes "errorCellsSet s" and "appState s = LOADING"
  shows "errorCellsSet (fst (settleAttempt pf r p s))"
  using assms settleAttempt_results [of pf r p s]
  by (auto simp: errorCellsSet_def catchBlock_cells truthy_def classifyError_message_nonempty)

lemma reachable_errorCellsSet: "reachable pf m \<Longrightarrow> errorCellsSet (session m)"
proof (induction rule: reachable.induct)
  case reachable_initial
  show ?case by (simp add: errorCellsSet_def initialMachine_def initialSession_def)
next
  case (reachable_step m ev m')
  note inv = reachable_step.IH and st = reachable_step.hyps(2)
  from st have off: "offered (session m) ev" by (auto simp: step_def split: if_splits)
  show ?case
  proof (cases ev)
    case (Submit params kc)
    with st off have "m' = launch m (startAttempt pf kc params (session m))"
      by (simp add: step_def)
    then show ?thesis using errorCellsSet_started [OF inv] by (simp add: session_launch)
  next
    case (RetryClick kc)
    with st off have "m' = launch m (handleRetry pf kc (lastConfig (session m)) (session m))"
      by (simp add: step_def)
    then show ?thesis using errorCellsSet_retried [OF inv] by (simp add: session_launch)
  next
    case ExtendClick
    with st off have "m' = m\<lparr>session := handleExtend (session m)\<rparr>" by (simp add: step_def)
    then show ?thesis using inv
      by (auto simp: errorCellsSet_def handleExtend_def split: option.splits)
  next
    case NewVideoClick
    with st off have "m' = m\<lparr>session := handleNewVideo (session m)\<rparr>" by (simp add: step_def)
    then show ?thesis by (simp add: errorCellsSet_def handleNewVideo_def)
  next
    case TryAgainClick
    with st off have "m' = m\<lparr>session := handleTryAgainFromError (session m)\<rparr>"
      by (simp add: step_def)
    then show ?thesis by (simp add: errorCellsSet_def handleTryAgainFromError_state)
  next
    case (DialogContinue sel kc)
    with st off
    have "m' = launch m (handleApiKeyDialogContinue pf sel kc (session m) (session m))"
      by (simp add: step_def)
    then show ?thesis using errorCellsSet_continued [OF inv] by (simp add: session_launch)
  next
    case (Settled r)
    with st off obtain p where p: "inFlight m = Some p"
      by (auto simp: step_def split: option.splits)
    with reachable_step.hyps(1) have loading: "appState (session m) = LOADING"
      using reachable_in_flight_iff_loading [of pf m] by simp
    from st off Settled p have "session m' = fst (settleAttempt pf r p (session m))"
      by (auto simp: step_def split: prod.splits)
    then show ?thesis using errorCellsSet_settled [OF inv loading] by simp
  qed
qed

text \<open>
  Claim C9. "Try again" with a stored last request leads to \<open>IDLE\<close> with that request as
  the form's initial values, keeps it as the last request, clears the error message and
  leaves the other cells alone. Without a stored last request it is the plain reset of
  \<^verbatim>\<open>handleNewVideo\<close>: request, result, error message and initial values are all cleared.
  In every \<open>ERROR\<close> state the machine can reach, the error box with its Try Again button is
  shown and a last request is stored, so the click takes the first course there.
\<close>

theorem handleTryAgainFromError_prefills:
  "(case lastConfig s of
      Some cfg \<Rightarrow>
        appState (handleTryAgainFromError s) = IDLE
        \<and> initialFormValues (handleTryAgainFromError s) = Some cfg
        \<and> lastConfig (handleTryAgainFromError s) = Some cfg
        \<and> errorMessage (handleTryAgainFromError s) = None
        \<and> handleTryAgainFromError s
            = s\<lparr>initialFormValues := Some cfg, appState := IDLE, errorMessage := None\<rparr>
    | None \<Rightarrow>
        handleTryAgainFromError s = handleNewVideo s
        \<and> appState (handleTryAgainFromError s) = IDLE
        \<and> lastConfig (handleTryAgainFromError s) = None
        \<and> videoUrl (handleTryAgainFromError s) = None
        \<and> audioBuffer (handleTryAgainFromError s) = None
        \<and> lastVideoObject (handleTryAgainFromError s) = None
        \<and> lastVideoBlob (handleTryAgainFromError s) = None
        \<and> errorMessage (handleTryAgainFromError s) = None
        \<and> initialFormValues (handleTryAgainFromError s) = None)
   \<and> (reachable pf m \<and> appState (session m) = ERROR \<longrightarrow>
        (\<exists>cfg. lastConfig (session m) = Some cfg
           \<and> step pf m TryAgainClick
               = Some (m\<lparr>session :=
                          (session m)\<lparr>initialFormValues := Some cfg, appState := IDLE,
                                      errorMessage := None\<rparr>\<rparr>)))"
proof -
  have handler: "(case lastConfig s of
      Some cfg \<Rightarrow>
        appState (handleTryAgainFromError s) = IDLE
        \<and> initialFormValues (handleTryAgainFromError s) = Some cfg
        \<and> lastConfig (handleTryAgainFromError s) = Some cfg
        \<and> errorMessage (handleTryAgainFromError s) = None
        \<and> handleTryAgainFromError s
            = s\<lparr>initialFormValues := Some cfg, appState := IDLE, errorMessage := None\<rparr>
    | None \<Rightarrow>
        handleTryAgainFromError s = handleNewVideo s
        \<and> appState (handleTryAgainFromError s) = IDLE
        \<and> lastConfig (handleTryAgainFromError s) = None
        \<and> videoUrl (handleTryAgainFromError s) = None
        \<and> audioBuffer (handleTryAgainFromError s) = None
        \<and> lastVideoObject (handleTryAgainFromError s) = None
        \<and> lastVideoBlob (handleTryAgainFromError s) = None
        \<and> errorMessage (handleTryAgainFromError s) = None
        \<and> initialFormValues (handleTryAgainFromError s) = None)"
    by (cases "lastConfig s") (simp_all add: handleTryAgainFromError_def handleNewVideo_def)
  have machine: "\<exists>cfg. lastConfig (session m) = Some cfg
           \<and> step pf m TryAgainClick
               = Some (m\<lparr>session :=
                          (session m)\<lparr>initialFormValues := Some cfg, appState := IDLE,
                                      errorMessage := None\<rparr>\<rparr>)"
    if "reachable pf m" and err: "appState (session m) = ERROR"
  proof -
    from that(1) have "errorCellsSet (session m)" by (rule reachable_errorCellsSet)
    with err obtain cfg where cfg: "lastConfig (session m) = Some cfg"
      and shown: "truthy (errorMessage (session m))"
      by (auto simp: errorCellsSet_def)
    from err shown have "offered (session m) TryAgainClick" by (simp add: offered_def)
    with cfg have "step pf m TryAgainClick
               = Some (m\<lparr>session :=
                          (session m)\<lparr>initialFormValues := Some cfg, appState := IDLE,
                                      errorMessage := None\<rparr>\<rparr>)"
      by (simp add: step_def handleTryAgainFromError_def)
    with cfg show ?thesis by blast
  qed
  from handler machine show ?thesis by blast
qed

theorem handleTryAgainFromError_prefills_witness:
  "reachable demoPlatform storyFailed
   \<and> appState (session storyFailed) = ERROR
   \<and> lastConfig (session storyFailed) = Some storyRequest
   \<and> step demoPlatform storyFailed TryAgainClick
       = Some (storyFailed\<lparr>session :=
                  (session storyFailed)\<lparr>initialFormValues := Some storyRequest,
                                         appState := IDLE, errorMessage := None\<rparr>\<rparr>)
   \<and> handleTryAgainFromError (initialSession\<lparr>appState := ERROR, errorMessage := Some ''x''\<rparr>)
       = initialSession"
proof -
  let ?t = "initialSession\<lparr>appState := ERROR, errorMessage := Some ''x''\<rparr>"
  have reach: "reachable demoPlatform storyFailed"
    using reachable_initial run_story_failed by (rule run_reachable)
  have err: "appState (session storyFailed) = ERROR"
    and last: "lastConfig (session storyFailed) = Some storyRequest"
    by (simp_all add: storyFailed_def)
  have none: "lastConfig ?t = None" by (simp add: initialSession_def)
  note inst = handleTryAgainFromError_prefills [of ?t demoPlatform storyFailed]
  from inst none have "handleTryAgainFromError ?t = handleNewVideo ?t" by simp
  then have reset: "handleTryAgainFromError ?t = initialSession"
    by (simp add: handleNewVideo_def initialSession_def)
  from inst reach err obtain cfg where "lastConfig (session storyFailed) = Some cfg"
    and "step demoPlatform storyFailed TryAgainClick
           = Some (storyFailed\<lparr>session :=
                      (session storyFailed)\<lparr>initialFormValues := Some cfg,
                                             appState := IDLE, errorMessage := None\<rparr>\<rparr>)"
    by blast
  with last have "step demoPlatform storyFailed TryAgainClick
       = Some (storyFailed\<lparr>session :=
                  (session storyFailed)\<lparr>initialFormValues := Some storyRequest,
                                         appState := IDLE, errorMessage := None\<rparr>\<rparr>)"
    by simp
  with reach err last reset show ?thesis by blast
qed

subsection \<open>Extend\<close>

lemma resultCellsSet_started:
  assumes "resultCellsSet s"
  shows "resultCellsSet (fst (startAttempt pf kc params s))"
  using assms startAttempt_results [of pf kc params s]
  by (auto simp: resultCellsSet_def catchBlock_cells beginAttempt_cells)

lemma resultCellsSet_retried:
  assumes "resultCellsSet s"
  shows "resultCellsSet (fst (handleRetry pf kc lastCfg s))"
proof (cases lastCfg)
  case None
  with assms show ?thesis by (simp add: handleRetry_def)
next
  case (Some cfg)
  with resultCellsSet_started [OF assms, of pf kc cfg] show ?thesis
    by (simp add: handleRetry_def)
qed

lemma resultCellsSet_dialog_closed:
  assumes "resultCellsSet s"
  shows "resultCellsSet (s\<lparr>showApiKeyDialog := False\<rparr>)"
  using assms by (simp add: resultCellsSet_def)

lemma resultCellsSet_continued:
  assumes "resultCellsSet s"
  shows "resultCellsSet (fst (handleApiKeyDialogContinue pf sel kc rendered s))"
  using resultCellsSet_retried [OF resultCellsSet_dialog_closed [OF assms], of pf kc "lastConfig rendered"]
    resultCellsSet_dialog_closed [OF assms]
  by (cases sel) (simp_all add: handleApiKeyDialogContinue_def Let_def)

lemma resultCellsSet_settled: "resultCellsSet (fst (settleAttempt pf r p s))"
  by (cases p)
    (auto simp: resultCellsSet_def settleAttempt_def catchBlock_cells
      split: sum.splits prod.splits)

lemma reachable_resultCellsSet: "reachable pf m \<Longrightarrow> resultCellsSet (session m)"
proof (induction rule: reachable.induct)
  case reachable_initial
  show ?case by (simp add: resultCellsSet_def initialMachine_def initialSession_def)
next
  case (reachable_step m ev m')
  note inv = reachable_step.IH and st = reachable_step.hyps(2)
  from st have off: "offered (session m) ev" by (auto simp: step_def split: if_splits)
  show ?case
  proof (cases ev)
    case (Submit params kc)
    with st off have "m' = launch m (startAttempt pf kc params (session m))"
      by (simp add: step_def)
    then show ?thesis using resultCellsSet_started [OF inv] by (simp add: session_launch)
  next
    case (RetryClick kc)
    with st off have "m' = launch m (handleRetry pf kc (lastConfig (session m)) (session m))"
      by (simp add: step_def)
    then show ?thesis using resultCellsSet_retried [OF inv] by (simp add: session_launch)
  next
    case ExtendClick
    with st off have "m' = m\<lparr>session := handleExtend (session m)\<rparr>" by (simp add: step_def)
    then show ?thesis using inv
      by (auto simp: resultCellsSet_def handleExtend_def split: option.splits)
  next
    case NewVideoClick
    with st off have "m' = m\<lparr>session := handleNewVideo (session m)\<rparr>" by (simp add: step_def)
    then show ?thesis by (simp add: resultCellsSet_def handleNewVideo_def)
  next
    case TryAgainClick
    with st off have "m' = m\<lparr>session := handleTryAgainFromError (session m)\<rparr>"
      by (simp add: step_def)
    then show ?thesis by (simp add: resultCellsSet_def handleTryAgainFromError_state)
  next
    case (DialogContinue sel kc)
    with st off
    have "m' = launch m (handleApiKeyDialogContinue pf sel kc (session m) (session m))"
      by (simp add: step_def)
    then show ?thesis using resultCellsSet_continued [OF inv] by (simp add: session_launch)
  next
    case (Settled r)
    with st off obtain p where p: "inFlight m = Some p"
      by (auto simp: step_def split: option.splits)
    from st off Settled p have "session m' = fst (settleAttempt pf r p (session m))"
      by (auto simp: step_def split: prod.splits)
    then show ?thesis using resultCellsSet_settled [of pf r p "session m"] by simp
  qed
qed

text \<open>
  Claim C6. When a last request, a last video payload and a last video handle are all
  stored, \<^verbatim>\<open>handleExtend\<close> sets the form's initial values to a request with mode
  \<open>EXTEND_VIDEO\<close>, an empty prompt, the last request's aspect ratio and model, resolution
  720p, the prior payload wrapped as the input-video file \<^verbatim>\<open>last_video.mp4\<close>, the prior video
  handle as the input-video object, and start frame, end frame, reference images, style
  image and loop flag reset. Wherever the machine offers Extend in a state it can reach,
  all three are stored and the last request is at 720p, so the click leads to \<open>IDLE\<close> with
  such a request carrying the prior video handle.
\<close>

theorem handleExtend_request:
  "(lastConfig s = Some cfg \<and> lastVideoBlob s = Some lastBlob
      \<and> lastVideoObject s = Some lastObject \<longrightarrow>
      (\<exists>next. initialFormValues (handleExtend s) = Some next
         \<and> mode next = EXTEND_VIDEO
         \<and> prompt next = ''''
         \<and> aspectRatio next = aspectRatio cfg
         \<and> model next = model cfg
         \<and> resolution next = P720
         \<and> inputVideo next
             = Some \<lparr>theFile = \<lparr>fileBits = [lastBlob], fileName = ''last_video.mp4'',
                                 fileType = blobType lastBlob\<rparr>,
                      base64 = ''''\<rparr>
         \<and> inputVideoObject next = Some lastObject
         \<and> startFrame next = None
         \<and> endFrame next = None
         \<and> referenceImages next = []
         \<and> styleImage next = None
         \<and> isLooping next = False))
   \<and> (reachable pf m \<and> step pf m ExtendClick = Some m' \<longrightarrow>
        (\<exists>last handle next.
           lastConfig (session m) = Some last \<and> resolution last = P720
           \<and> lastVideoObject (session m) = Some handle
           \<and> appState (session m') = IDLE
           \<and> initialFormValues (session m') = Some next
           \<and> mode next = EXTEND_VIDEO
           \<and> prompt next = ''''
           \<and> aspectRatio next = aspectRatio last
           \<and> model next = model last
           \<and> resolution next = P720
           \<and> inputVideoObject next = Some handle))"
proof -
  have handler: "\<exists>next. initialFormValues (handleExtend s) = Some next
         \<and> mode next = EXTEND_VIDEO
         \<and> prompt next = ''''
         \<and> aspectRatio next = aspectRatio cfg
         \<and> model next = model cfg
         \<and> resolution next = P720
         \<and> inputVideo next
             = Some \<lparr>theFile = \<lparr>fileBits = [lastBlob], fileName = ''last_video.mp4'',
                                 fileType = blobType lastBlob\<rparr>,
                      base64 = ''''\<rparr>
         \<and> inputVideoObject next = Some lastObject
         \<and> startFrame next = None
         \<and> endFrame next = None
         \<and> referenceImages next = []
         \<and> styleImage next = None
         \<and> isLooping next = False"
    if "lastConfig s = Some cfg" and "lastVideoBlob s = Some lastBlob"
      and "lastVideoObject s = Some lastObject"
    using that by (simp add: handleExtend_def)
  have machine: "\<exists>last handle next.
           lastConfig (session m) = Some last \<and> resolution last = P720
           \<and> lastVideoObject (session m) = Some handle
           \<and> appState (session m') = IDLE
           \<and> initialFormValues (session m') = Some next
           \<and> mode next = EXTEND_VIDEO
           \<and> prompt next = ''''
           \<and> aspectRatio next = aspectRatio last
           \<and> model next = model last
           \<and> resolution next = P720
           \<and> inputVideoObject next = Some handle"
    if reach: "reachable pf m" and st: "step pf m ExtendClick = Some m'"
  proof -
    from st have off: "offered (session m) ExtendClick"
      by (auto simp: step_def split: if_splits)
    then have success: "appState (session m) = SUCCESS"
      and "canExtend (session m)"
      by (simp_all add: offered_def)
    then obtain last where last: "lastConfig (session m) = Some last"
      and tier: "resolution last = P720"
      by (auto simp: canExtend_def split: option.splits)
    from reach have "resultCellsSet (session m)" by (rule reachable_resultCellsSet)
    with success obtain payload handle where payload: "lastVideoBlob (session m) = Some payload"
      and handle: "lastVideoObject (session m) = Some handle"
      by (auto simp: resultCellsSet_def)
    from st off have m': "session m' = handleExtend (session m)"
      by (auto simp: step_def)
    from last payload handle have "appState (handleExtend (session m)) = IDLE"
      by (simp add: handleExtend_def)
    moreover from last payload handle
    have "\<exists>next. initialFormValues (handleExtend (session m)) = Some next
            \<and> mode next = EXTEND_VIDEO \<and> prompt next = ''''
            \<and> aspectRatio next = aspectRatio last \<and> model next = model last
            \<and> resolution next = P720 \<and> inputVideoObject next = Some handle"
      by (simp add: handleExtend_def)
    ultimately show ?thesis using last tier handle m' by auto
  qed
  from handler machine show ?thesis by blast
qed

theorem handleExtend_request_witness:
  "reachable demoPlatform textSuccess
   \<and> lastConfig (session textSuccess) = Some textRequest
   \<and> lastVideoBlob (session textSuccess) = Some (blob demoVideo)
   \<and> lastVideoObject (session textSuccess) = Some (video demoVideo)
   \<and> (\<exists>m'. step demoPlatform textSuccess ExtendClick = Some m')
   \<and> (\<exists>next. initialFormValues (handleExtend (session textSuccess)) = Some next
          \<and> mode next = EXTEND_VIDEO
          \<and> prompt next = ''''
          \<and> aspectRatio next = aspectRatio textRequest
          \<and> model next = model textRequest
          \<and> resolution next = P720
          \<and> inputVideo next
              = Some \<lparr>theFile = \<lparr>fileBits = [blob demoVideo], fileName = ''last_video.mp4'',
                                  fileType = blobType (blob demoVideo)\<rparr>,
                       base64 = ''''\<rparr>
          \<and> inputVideoObject next = Some (video demoVideo)
          \<and> startFrame next = None
          \<and> endFrame next = None
          \<and> referenceImages next = []
          \<and> styleImage next = None
          \<and> isLooping next = False)
   \<and> (\<exists>last handle next.
          lastConfig (session textSuccess) = Some last \<and> resolution last = P720
          \<and> lastVideoObject (session textSuccess) = Some handle
          \<and> appState (handleExtend (session textSuccess)) = IDLE
          \<and> initialFormValues (handleExtend (session textSuccess)) = Some next
          \<and> mode next = EXTEND_VIDEO
          \<and> prompt next = ''''
          \<and> aspectRatio next = aspectRatio last
          \<and> model next = model last
          \<and> resolution next = P720
          \<and> inputVideoObject next = Some handle)"
proof -
  let ?m' = "textSuccess\<lparr>session := handleExtend (session textSuccess)\<rparr>"
  have reach: "reachable demoPlatform textSuccess"
    using reachable_initial run_text_success by (rule run_reachable)
  have cells: "lastConfig (session textSuccess) = Some textRequest"
    "lastVideoBlob (session textSuccess) = Some (blob demoVideo)"
    "lastVideoObject (session textSuccess) = Some (video demoVideo)"
    by (simp_all add: textSuccess_def demoVideo_def)
  have st: "step demoPlatform textSuccess ExtendClick = Some ?m'"
    by (simp add: step_def offered_def canExtend_def truthy_def textSuccess_def demo_facts)
  note inst = handleExtend_request
    [of "session textSuccess" textRequest "blob demoVideo" "video demoVideo" demoPlatform
      textSuccess ?m']
  from inst cells have first:
    "\<exists>next. initialFormValues (handleExtend (session textSuccess)) = Some next
          \<and> mode next = EXTEND_VIDEO
          \<and> prompt next = ''''
          \<and> aspectRatio next = aspectRatio textRequest
          \<and> model next = model textRequest
          \<and> resolution next = P720
          \<and> inputVideo next
              = Some \<lparr>theFile = \<lparr>fileBits = [blob demoVideo], fileName = ''last_video.mp4'',
                                  fileType = blobType (blob demoVideo)\<rparr>,
                       base64 = ''''\<rparr>
          \<and> inputVideoObject next = Some (video demoVideo)
          \<and> startFrame next = None
          \<and> endFrame next = None
          \<and> referenceImages next = []
          \<and> styleImage next = None
          \<and> isLooping next = False"
    by blast
  from inst reach st have second:
    "\<exists>last handle next.
          lastConfig (session textSuccess) = Some last \<and> resolution last = P720
          \<and> lastVideoObject (session textSuccess) = Some handle
          \<and> appState (session ?m') = IDLE
          \<and> initialFormValues (session ?m') = Some next
          \<and> mode next = EXTEND_VIDEO
          \<and> prompt next = ''''
          \<and> aspectRatio next = aspectRatio last
          \<and> model next = model last
          \<and> resolution next = P720
          \<and> inputVideoObject next = Some handle"
    by blast
  from st have "\<exists>m'. step demoPlatform textSuccess ExtendClick = Some m'" by blast
  with reach cells first second show ?thesis by simp
qed

subsection \<open>The transitions of the session\<close>






















end
